theory Spec2Isabelle
  imports Complex_Main "HOL-Library.Signed_Division"
begin

section \<open>Cylinder pressure interpolation (gaspressures.c)\<close>

text \<open>
  A shallow embedding of \<^verbatim>\<open>gaspressures.c\<close>.  Modelling decisions:
  \<^item> C \<^verbatim>\<open>int\<close> is the type \<open>int\<close>; signed overflow, which C leaves undefined, is
    not modelled.  Integer division truncates towards zero (\<open>sdiv\<close>).
  \<^item> C \<^verbatim>\<open>double\<close> is the type \<open>real\<close> of exact real numbers: the rounding of
    IEEE arithmetic after each operation is not modelled.  Every operand of the
    file's floating-point expressions is an \<^verbatim>\<open>int\<close> converted to \<^verbatim>\<open>double\<close>.
    Conversion of a \<^verbatim>\<open>double\<close> to \<^verbatim>\<open>int\<close> truncates towards zero;
    \<^verbatim>\<open>rint\<close> rounds to the nearest integer in the default rounding mode, ties
    to the even neighbour.  On the concrete inputs evaluated below IEEE
    arithmetic yields the same integers: the values that are truncated are
    integers computed exactly or lie at least 0.05 from an integer, and the
    sums that are rounded come out exactly.
  \<^item> The linked list \<^verbatim>\<open>pr_track_t\<close> is a HOL list of segments in chain order;
    the \<^verbatim>\<open>next\<close> pointer is the list structure.
  \<^item> The arrays \<^verbatim>\<open>track_pr[MAX_CYLINDERS]\<close> and \<^verbatim>\<open>cur_pr[MAX_CYLINDERS]\<close> are
    functions from the index; an access outside \<open>0..<MAX_CYLINDERS\<close>, a
    dereferenced null pointer and a division by zero are results \<open>Inl\<close> of a
    \<open>fault\<close>.
  \<^item> \<^verbatim>\<open>MAX_CYLINDERS\<close>, \<^verbatim>\<open>DILUENT_CYLINDER\<close>, \<^verbatim>\<open>SURFACE_THRESHOLD\<close> and the function
    \<^verbatim>\<open>depth_to_mbar\<close> (for the dive at hand) are declared outside the file and
    are parameters of the model.
\<close>

subsection \<open>Data model\<close>

datatype fault = Index_Out_Of_Bounds | Null_Dereference | Division_By_Zero

type_synonym double = real

text \<open>
  Modelled from the spec: \<^verbatim>\<open>struct plot_data\<close> and the macros \<^verbatim>\<open>SENSOR_PR\<close>,
  \<^verbatim>\<open>INTERPOLATED_PR\<close>, \<^verbatim>\<open>SENSOR_PRESSURE\<close> and \<^verbatim>\<open>DILUENT_PRESSURE\<close> are declared in
  profile.h, which is missing.  A profile entry has the elapsed time \<open>sec\<close>, the
  \<open>depth\<close>, the \<open>cylinderindex\<close> in use, the computed \<open>pressure_time\<close>, and for
  the main cylinder and the diluent a pair of slots: \<^verbatim>\<open>pressure[SENSOR_PR]\<close>,
  \<^verbatim>\<open>pressure[INTERPOLATED_PR]\<close>, \<^verbatim>\<open>diluentpressure[SENSOR_PR]\<close>,
  \<^verbatim>\<open>diluentpressure[INTERPOLATED_PR]\<close>.  The raw sensor reading of an entry is its
  reported (sensor) slot, 0 meaning no reading.
\<close>

record plot_data =
  sec :: int
  depth :: int
  cylinderindex :: int
  pressure_time :: int
  pressure_SENSOR_PR :: int
  pressure_INTERPOLATED_PR :: int
  diluentpressure_SENSOR_PR :: int
  diluentpressure_INTERPOLATED_PR :: int

definition SENSOR_PRESSURE :: "plot_data \<Rightarrow> int" where
  "SENSOR_PRESSURE entry = pressure_SENSOR_PR entry"

definition DILUENT_PRESSURE :: "plot_data \<Rightarrow> int" where
  "DILUENT_PRESSURE entry = diluentpressure_SENSOR_PR entry"

text \<open>
  Modelled from the spec: \<^verbatim>\<open>pr_track_t\<close> is declared in gaspressures.h, which is
  missing; the fields are those the file reads and writes.  The field
  \<^verbatim>\<open>end\<close> is named \<open>end_pr\<close>, the field \<^verbatim>\<open>pressure_time\<close> is named \<open>seg_pressure_time\<close>.
\<close>

record pr_track =
  start :: int
  end_pr :: int
  t_start :: int
  t_end :: int
  seg_pressure_time :: int

text \<open>
  Modelled from the spec: \<^verbatim>\<open>struct pr_interpolate_struct\<close> is declared in
  gaspressures.h, which is missing; the fields are those the file uses.
\<close>

record pr_interpolate =
  ip_start :: int
  ip_end :: int
  ip_pressure_time :: int
  ip_acc_pressure_time :: int

definition pr_track_alloc :: "int \<Rightarrow> int \<Rightarrow> pr_track" where
  "pr_track_alloc st ts =
     \<lparr>start = st, end_pr = 0, t_start = ts, t_end = ts, seg_pressure_time = 0\<rparr>"

definition list_add :: "pr_track list \<Rightarrow> pr_track \<Rightarrow> pr_track list" where
  "list_add list element = list @ [element]"

subsection \<open>Arithmetic of the C expressions\<close>

definition int_of_double :: "double \<Rightarrow> int" where
  "int_of_double x = (if 0 \<le> x then \<lfloor>x\<rfloor> else \<lceil>x\<rceil>)"

definition rint :: "double \<Rightarrow> int" where
  "rint x =
     (let f = \<lfloor>x\<rfloor>; r = x - of_int f
      in if r < 1 / 2 then f
         else if 1 / 2 < r then f + 1
         else if even f then f else f + 1)"

definition double_div :: "double \<Rightarrow> double \<Rightarrow> fault + double" where
  "double_div x y = (if y = 0 then Inl Division_By_Zero else Inr (x / y))"

subsection \<open>The workload integrator\<close>

definition calc_pressure_time ::
  "int \<Rightarrow> (int \<Rightarrow> int) \<Rightarrow> plot_data \<Rightarrow> plot_data \<Rightarrow> int" where
  "calc_pressure_time SURFACE_THRESHOLD depth_to_mbar a b =
     (let time = sec b - sec a;
          depth = (plot_data.depth a + plot_data.depth b) sdiv 2
      in if depth \<le> SURFACE_THRESHOLD then 0
         else depth_to_mbar depth * time)"

subsection \<open>Segment-level redistribution\<close>

text \<open>
  The first inner loop of \<^verbatim>\<open>fill_missing_segment_pressures\<close>: from the segment
  \<open>tmp\<close> (followed in the chain by \<open>rest\<close>) walk forward, adding up the
  pressure-times, until a segment with an end pressure is found or the chain
  ends.  The result is \<open>pt_sum\<close>, \<open>end\<close> and the number of steps \<open>tmp\<close> has made.
\<close>

fun find_run_end :: "int \<Rightarrow> int \<Rightarrow> pr_track \<Rightarrow> pr_track list \<Rightarrow> int \<times> int \<times> nat" where
  "find_run_end start0 pt_sum tmp [] =
     (let pt_sum = pt_sum + seg_pressure_time tmp; end = end_pr tmp
      in if end \<noteq> 0 then (pt_sum, end, 0) else (pt_sum, start0, 0))"
| "find_run_end start0 pt_sum tmp (nxt # rest) =
     (let pt_sum = pt_sum + seg_pressure_time tmp; end = end_pr tmp
      in if end \<noteq> 0 then (pt_sum, end, 0)
         else (case find_run_end start0 pt_sum nxt rest of
                 (pt_sum, end, n) \<Rightarrow> (pt_sum, end, Suc n)))"

text \<open>
  The pressure at the end of a segment of the run:
  \<^verbatim>\<open>pressure = start; if (pt_sum) pressure -= (start - end) * (double)pt / pt_sum;\<close>
\<close>

definition dole_pressure :: "int \<Rightarrow> int \<Rightarrow> int \<Rightarrow> int \<Rightarrow> fault + int" where
  "dole_pressure start0 end pt_sum pt =
     (if pt_sum \<noteq> 0
      then (case double_div (of_int (start0 - end) * of_int pt) (of_int pt_sum) of
              Inl f \<Rightarrow> Inl f
            | Inr q \<Rightarrow> Inr (int_of_double (of_int start0 - q)))
      else Inr start0)"

text \<open>
  The second inner loop: dole out the pressures over the run \<^verbatim>\<open>list\<close>..\<^verbatim>\<open>tmp\<close>,
  here the list of the run's segments; \<open>pt\<close> is the pressure-time accumulated
  before the first of them.
\<close>

fun dole_out :: "int \<Rightarrow> int \<Rightarrow> int \<Rightarrow> int \<Rightarrow> pr_track list \<Rightarrow> fault + pr_track list" where
  "dole_out start0 end pt_sum pt [] = Inr []"
| "dole_out start0 end pt_sum pt [list] =
     (case dole_pressure start0 end pt_sum (pt + seg_pressure_time list) of
        Inl f \<Rightarrow> Inl f
      | Inr pressure \<Rightarrow> Inr [list\<lparr>end_pr := pressure\<rparr>])"
| "dole_out start0 end pt_sum pt (list # nxt # rest) =
     (case dole_pressure start0 end pt_sum (pt + seg_pressure_time list) of
        Inl f \<Rightarrow> Inl f
      | Inr pressure \<Rightarrow>
          (case dole_out start0 end pt_sum (pt + seg_pressure_time list)
                  (nxt\<lparr>start := pressure\<rparr> # rest) of
             Inl f \<Rightarrow> Inl f
           | Inr done \<Rightarrow> Inr (list\<lparr>end_pr := pressure\<rparr> # done)))"

text \<open>
  The run that starts at \<open>list\<close>, after \<^verbatim>\<open>list->start = start; tmp->end = end;\<close>
  where \<open>tmp\<close> is \<open>n\<close> segments after \<open>list\<close>.
\<close>

definition run_of :: "int \<Rightarrow> int \<Rightarrow> nat \<Rightarrow> pr_track \<Rightarrow> pr_track list \<Rightarrow> pr_track list" where
  "run_of start0 end n list rest =
     (let run = list\<lparr>start := start0\<rparr> # take n rest
      in run[n := (run ! n)\<lparr>end_pr := end\<rparr>])"

function fill_missing_segment_pressures :: "pr_track list \<Rightarrow> fault + pr_track list" where
  "fill_missing_segment_pressures [] = Inr []"
| "fill_missing_segment_pressures (list # rest) =
     (case find_run_end (start list) 0 list rest of
        (pt_sum, end, n) \<Rightarrow>
          (let start0 = (if start list = 0 then end else start list)
           in case dole_out start0 end pt_sum 0 (run_of start0 end n list rest) of
                Inl f \<Rightarrow> Inl f
              | Inr done \<Rightarrow>
                  (case fill_missing_segment_pressures (drop n rest) of
                     Inl f \<Rightarrow> Inl f
                   | Inr others \<Rightarrow> Inr (done @ others))))"
  by pat_completeness auto
termination
  by (relation "measure length") auto

subsection \<open>Point-level interpolation\<close>

text \<open>
  The loop of \<^verbatim>\<open>get_pr_interpolate_data\<close> over the entries from index \<open>i\<close> on;
  \<^verbatim>\<open>continue\<close> is the recursive call, \<^verbatim>\<open>break\<close> returns.
\<close>

fun interpolate_loop ::
  "pr_track \<Rightarrow> nat \<Rightarrow> int \<Rightarrow> nat \<Rightarrow> plot_data list \<Rightarrow> pr_interpolate \<Rightarrow> pr_interpolate" where
  "interpolate_loop segment cur diluent_flag i [] interpolate = interpolate"
| "interpolate_loop segment cur diluent_flag i (entry # rest) interpolate =
     (let pressure = (if diluent_flag \<noteq> 0 then DILUENT_PRESSURE entry
                      else SENSOR_PRESSURE entry)
      in if sec entry < t_start segment
         then interpolate_loop segment cur diluent_flag (Suc i) rest interpolate
         else if t_end segment \<le> sec entry
         then interpolate\<lparr>ip_pressure_time := ip_pressure_time interpolate + pressure_time entry\<rparr>
         else if sec entry = t_start segment
         then interpolate_loop segment cur diluent_flag (Suc i) rest
                (interpolate\<lparr>ip_start := (if pressure \<noteq> 0 then pressure else ip_start interpolate),
                              ip_pressure_time := 0, ip_acc_pressure_time := 0\<rparr>)
         else if i < cur
         then (if pressure \<noteq> 0
               then interpolate_loop segment cur diluent_flag (Suc i) rest
                      (interpolate\<lparr>ip_start := pressure,
                                    ip_pressure_time := 0, ip_acc_pressure_time := 0\<rparr>)
               else interpolate_loop segment cur diluent_flag (Suc i) rest
                      (interpolate\<lparr>ip_pressure_time := ip_pressure_time interpolate + pressure_time entry,
                                    ip_acc_pressure_time := ip_acc_pressure_time interpolate + pressure_time entry\<rparr>))
         else if i = cur
         then interpolate_loop segment cur diluent_flag (Suc i) rest
                (interpolate\<lparr>ip_pressure_time := ip_pressure_time interpolate + pressure_time entry,
                              ip_acc_pressure_time := ip_acc_pressure_time interpolate + pressure_time entry\<rparr>)
         else if pressure \<noteq> 0
         then interpolate\<lparr>ip_end := pressure,
                           ip_pressure_time := ip_pressure_time interpolate + pressure_time entry\<rparr>
         else interpolate_loop segment cur diluent_flag (Suc i) rest
                (interpolate\<lparr>ip_pressure_time := ip_pressure_time interpolate + pressure_time entry\<rparr>))"

definition get_pr_interpolate_data ::
  "pr_track \<Rightarrow> plot_data list \<Rightarrow> nat \<Rightarrow> int \<Rightarrow> pr_interpolate" where
  "get_pr_interpolate_data segment pi_entry cur diluent_flag =
     interpolate_loop segment cur diluent_flag 0 pi_entry
       \<lparr>ip_start = start segment, ip_end = end_pr segment,
        ip_pressure_time = 0, ip_acc_pressure_time = 0\<rparr>"

text \<open>
  The stores through the pointers \<^verbatim>\<open>save_pressure\<close> and \<^verbatim>\<open>save_interpolated\<close>.
\<close>

definition save_pressure :: "int \<Rightarrow> plot_data \<Rightarrow> int \<Rightarrow> plot_data" where
  "save_pressure diluent_flag entry v =
     (if diluent_flag \<noteq> 0 then entry\<lparr>diluentpressure_SENSOR_PR := v\<rparr>
      else entry\<lparr>pressure_SENSOR_PR := v\<rparr>)"

definition save_interpolated :: "int \<Rightarrow> plot_data \<Rightarrow> int \<Rightarrow> plot_data" where
  "save_interpolated diluent_flag entry v =
     (if diluent_flag \<noteq> 0 then entry\<lparr>diluentpressure_INTERPOLATED_PR := v\<rparr>
      else entry\<lparr>pressure_INTERPOLATED_PR := v\<rparr>)"

text \<open>
  The first loop of \<^verbatim>\<open>fill_missing_tank_pressures\<close>, over the cylinders \<open>cyls\<close>.
\<close>

fun init_cur_pr ::
  "int list \<Rightarrow> (int \<Rightarrow> pr_track list) \<Rightarrow> (int \<Rightarrow> int)
     \<Rightarrow> fault + ((int \<Rightarrow> pr_track list) \<times> (int \<Rightarrow> int))" where
  "init_cur_pr [] track_pr cur_pr = Inr (track_pr, cur_pr)"
| "init_cur_pr (cyl # cyls) track_pr cur_pr =
     (if track_pr cyl = [] then init_cur_pr cyls track_pr (cur_pr(cyl := - 1))
      else (case fill_missing_segment_pressures (track_pr cyl) of
              Inl f \<Rightarrow> Inl f
            | Inr [] \<Rightarrow> Inl Null_Dereference
            | Inr (first # others) \<Rightarrow>
                init_cur_pr cyls (track_pr(cyl := first # others)) (cur_pr(cyl := start first))))"

text \<open>
  The segment search
  \<^verbatim>\<open>while (segment && segment->t_end < entry->sec) segment = segment->next;\<close>
  returns the chain from the segment found on.
\<close>

definition find_segment :: "pr_track list \<Rightarrow> int \<Rightarrow> pr_track list" where
  "find_segment chain s = dropWhile (\<lambda>segment. t_end segment < s) chain"

text \<open>
  The body of the second loop of \<^verbatim>\<open>fill_missing_tank_pressures\<close>, for the entry
  \<open>i\<close>; the state is the array of entries and \<open>cur_pr\<close>.
\<close>

definition tank_pressure_step ::
  "nat \<Rightarrow> int \<Rightarrow> (int \<Rightarrow> pr_track list) \<Rightarrow> int \<Rightarrow> nat
     \<Rightarrow> plot_data list \<times> (int \<Rightarrow> int) \<Rightarrow> fault + (plot_data list \<times> (int \<Rightarrow> int))" where
  "tank_pressure_step MAX_CYLINDERS DILUENT_CYLINDER track_pr diluent_flag i st =
     (case st of (pi_entry, cur_pr) \<Rightarrow>
        let entry = pi_entry ! i;
            cyl = (if diluent_flag \<noteq> 0 then DILUENT_CYLINDER else cylinderindex entry);
            pressure = (if diluent_flag \<noteq> 0 then DILUENT_PRESSURE entry
                        else SENSOR_PRESSURE entry)
        in if cyl < 0 \<or> int MAX_CYLINDERS \<le> cyl then Inl Index_Out_Of_Bounds
           else if pressure \<noteq> 0 then Inr (pi_entry, cur_pr(cyl := pressure))
           else (case find_segment (track_pr cyl) (sec entry) of
                   [] \<Rightarrow> Inr (pi_entry[i := save_pressure diluent_flag entry (cur_pr cyl)], cur_pr)
                 | segment # _ \<Rightarrow>
                     if seg_pressure_time segment = 0
                     then Inr (pi_entry[i := save_pressure diluent_flag entry (cur_pr cyl)], cur_pr)
                     else
                       (let interpolate = get_pr_interpolate_data segment pi_entry i diluent_flag
                        in if ip_pressure_time interpolate \<noteq> 0
                           then (case double_div (of_int (ip_end interpolate - ip_start interpolate))
                                        (of_int (ip_pressure_time interpolate)) of
                                   Inl f \<Rightarrow> Inl f
                                 | Inr magic \<Rightarrow>
                                     (let new_pr = rint (of_int (ip_start interpolate)
                                                      + magic * of_int (ip_acc_pressure_time interpolate))
                                      in Inr (pi_entry[i := save_interpolated diluent_flag entry new_pr],
                                              cur_pr(cyl := new_pr))))
                           else Inr (pi_entry[i := save_interpolated diluent_flag entry (cur_pr cyl)],
                                     cur_pr))))"

fun tank_pressure_loop ::
  "nat \<Rightarrow> int \<Rightarrow> (int \<Rightarrow> pr_track list) \<Rightarrow> int \<Rightarrow> nat list
     \<Rightarrow> plot_data list \<times> (int \<Rightarrow> int) \<Rightarrow> fault + (plot_data list \<times> (int \<Rightarrow> int))" where
  "tank_pressure_loop MAX_CYLINDERS DILUENT_CYLINDER track_pr diluent_flag [] st = Inr st"
| "tank_pressure_loop MAX_CYLINDERS DILUENT_CYLINDER track_pr diluent_flag (i # idxs) st =
     (case tank_pressure_step MAX_CYLINDERS DILUENT_CYLINDER track_pr diluent_flag i st of
        Inl f \<Rightarrow> Inl f
      | Inr st' \<Rightarrow> tank_pressure_loop MAX_CYLINDERS DILUENT_CYLINDER track_pr diluent_flag idxs st')"

text \<open>
  \<^verbatim>\<open>fill_missing_tank_pressures\<close> returns the array of entries it has written to.
  \<open>cur_pr\<close> starts uninitialised; only slots the first loop has set are read.
\<close>

definition fill_missing_tank_pressures ::
  "nat \<Rightarrow> int \<Rightarrow> plot_data list \<Rightarrow> (int \<Rightarrow> pr_track list) \<Rightarrow> int \<Rightarrow> fault + plot_data list" where
  "fill_missing_tank_pressures MAX_CYLINDERS DILUENT_CYLINDER pi_entry track_pr diluent_flag =
     (case init_cur_pr (map int [0..<MAX_CYLINDERS]) track_pr (\<lambda>cyl. 0) of
        Inl f \<Rightarrow> Inl f
      | Inr (track_pr, cur_pr) \<Rightarrow>
          (case tank_pressure_loop MAX_CYLINDERS DILUENT_CYLINDER track_pr diluent_flag
                  [1..<length pi_entry] (pi_entry, cur_pr) of
             Inl f \<Rightarrow> Inl f
           | Inr (pi_entry, cur_pr) \<Rightarrow> Inr pi_entry))"

subsection \<open>The segment builder and the engine\<close>

text \<open>
  The state of the loop of \<^verbatim>\<open>populate_pressure_information\<close>.  The pointer
  \<^verbatim>\<open>current\<close> is \<open>None\<close> for \<^verbatim>\<open>NULL\<close> and \<open>Some c\<close> when it points to the segment
  allocated last, which \<^verbatim>\<open>list_add\<close> has made the last one of the chain
  \<open>track_pr c\<close>.
\<close>

record populate_state =
  ps_entry :: "plot_data list"
  ps_track_pr :: "int \<Rightarrow> pr_track list"
  ps_cylinderindex :: int
  ps_current :: "int option"
  ps_missing_pr :: bool

definition update_current :: "(pr_track \<Rightarrow> pr_track) \<Rightarrow> pr_track list \<Rightarrow> pr_track list" where
  "update_current f chain = (if chain = [] then [] else butlast chain @ [f (last chain)])"

text \<open>
  The discrete integration at the head of the loop body.  \<^verbatim>\<open>current\<close> is
  \<^verbatim>\<open>NULL\<close> at the first entry, so the entry before, \<^verbatim>\<open>entry - 1\<close>, is read from
  the second entry on only, here and in the test for a recovered transmitter.
\<close>

definition integrate_step ::
  "int \<Rightarrow> (int \<Rightarrow> int) \<Rightarrow> nat \<Rightarrow> populate_state \<Rightarrow> populate_state" where
  "integrate_step SURFACE_THRESHOLD depth_to_mbar i s =
     (case ps_current s of
        None \<Rightarrow> s
      | Some c \<Rightarrow>
          (let entry = ps_entry s ! i;
               ptime = calc_pressure_time SURFACE_THRESHOLD depth_to_mbar (ps_entry s ! (i - 1)) entry
           in s\<lparr>ps_entry := (ps_entry s)[i := entry\<lparr>pressure_time := ptime\<rparr>],
                ps_track_pr := (ps_track_pr s)(c := update_current
                   (\<lambda>current. current\<lparr>t_end := sec entry,
                        seg_pressure_time := seg_pressure_time current + ptime\<rparr>)
                   (ps_track_pr s c))\<rparr>))"

definition populate_step ::
  "nat \<Rightarrow> int \<Rightarrow> (int \<Rightarrow> int) \<Rightarrow> nat \<Rightarrow> populate_state \<Rightarrow> fault + populate_state" where
  "populate_step MAX_CYLINDERS SURFACE_THRESHOLD depth_to_mbar i s0 =
     (let pressure = SENSOR_PRESSURE (ps_entry s0 ! i);
          s = integrate_step SURFACE_THRESHOLD depth_to_mbar i s0;
          entry = ps_entry s ! i
      in if cylinderindex entry \<noteq> ps_cylinderindex s
         then (let cyl = cylinderindex entry
               in if cyl < 0 \<or> int MAX_CYLINDERS \<le> cyl then Inl Index_Out_Of_Bounds
                  else Inr (s\<lparr>ps_cylinderindex := cyl, ps_current := Some cyl,
                              ps_track_pr := (ps_track_pr s)(cyl :=
                                 list_add (ps_track_pr s cyl) (pr_track_alloc pressure (sec entry)))\<rparr>))
         else if pressure = 0 then Inr (s\<lparr>ps_missing_pr := True\<rparr>)
         else (case ps_current s of
                 None \<Rightarrow> Inl Null_Dereference
               | Some c \<Rightarrow>
                   (let s = s\<lparr>ps_track_pr := (ps_track_pr s)(c := update_current
                                 (\<lambda>current. current\<lparr>end_pr := pressure\<rparr>) (ps_track_pr s c))\<rparr>;
                        cyl = ps_cylinderindex s
                    in if SENSOR_PRESSURE (ps_entry s ! (i - 1)) \<noteq> 0 then Inr s
                       else if cyl < 0 \<or> int MAX_CYLINDERS \<le> cyl then Inl Index_Out_Of_Bounds
                       else Inr (s\<lparr>ps_current := Some cyl,
                                   ps_track_pr := (ps_track_pr s)(cyl :=
                                      list_add (ps_track_pr s cyl)
                                        (pr_track_alloc pressure (sec entry)))\<rparr>))))"

fun populate_loop ::
  "nat \<Rightarrow> int \<Rightarrow> (int \<Rightarrow> int) \<Rightarrow> nat list \<Rightarrow> populate_state \<Rightarrow> fault + populate_state" where
  "populate_loop MAX_CYLINDERS SURFACE_THRESHOLD depth_to_mbar [] s = Inr s"
| "populate_loop MAX_CYLINDERS SURFACE_THRESHOLD depth_to_mbar (i # idxs) s =
     (case populate_step MAX_CYLINDERS SURFACE_THRESHOLD depth_to_mbar i s of
        Inl f \<Rightarrow> Inl f
      | Inr s' \<Rightarrow> populate_loop MAX_CYLINDERS SURFACE_THRESHOLD depth_to_mbar idxs s')"

text \<open>
  \<^verbatim>\<open>populate_pressure_information\<close> returns the entries of \<^verbatim>\<open>pi\<close>, the only
  thing that outlives the call.  The diluent flag passed on is the constant 0.
\<close>

definition populate_pressure_information ::
  "nat \<Rightarrow> int \<Rightarrow> int \<Rightarrow> (int \<Rightarrow> int) \<Rightarrow> plot_data list \<Rightarrow> fault + plot_data list" where
  "populate_pressure_information MAX_CYLINDERS DILUENT_CYLINDER SURFACE_THRESHOLD depth_to_mbar pi_entry =
     (case populate_loop MAX_CYLINDERS SURFACE_THRESHOLD depth_to_mbar [0..<length pi_entry]
             \<lparr>ps_entry = pi_entry, ps_track_pr = (\<lambda>cyl. []), ps_cylinderindex = - 1,
              ps_current = None, ps_missing_pr = False\<rparr> of
        Inl f \<Rightarrow> Inl f
      | Inr s \<Rightarrow>
          if ps_missing_pr s
          then fill_missing_tank_pressures MAX_CYLINDERS DILUENT_CYLINDER
                 (ps_entry s) (ps_track_pr s) 0
          else Inr (ps_entry s))"

subsection \<open>The runs of a chain, in the words of the specification\<close>

text \<open>
  A run is a maximal stretch of segments resolved together: it extends up to
  and including the first segment whose end pressure is known, or to the end
  of the chain.
\<close>

definition run_length :: "pr_track list \<Rightarrow> nat" where
  "run_length chain =
     min (length chain) (Suc (length (takeWhile (\<lambda>segment. end_pr segment = 0) chain)))"

definition first_run :: "pr_track list \<Rightarrow> pr_track list" where
  "first_run chain = take (run_length chain) chain"

definition run_pt_sum :: "pr_track list \<Rightarrow> int" where
  "run_pt_sum run = sum_list (map seg_pressure_time run)"

text \<open>
  The end pressure of the first run is the first known end pressure, falling
  back to the start pressure of the run's first segment; its start pressure
  is that of the first segment, defaulted to the end pressure when unknown.
\<close>

definition run_end :: "pr_track list \<Rightarrow> int" where
  "run_end chain =
     (if end_pr (last (first_run chain)) \<noteq> 0 then end_pr (last (first_run chain))
      else start (hd chain))"

definition run_start :: "pr_track list \<Rightarrow> int" where
  "run_start chain = (if start (hd chain) \<noteq> 0 then start (hd chain) else run_end chain)"

text \<open>
  The formula of the specification, \<open>start - (start - end) * pt / pt_sum\<close>, left
  at \<open>start\<close> when \<open>pt_sum\<close> is zero, as a real number.
\<close>

definition spec_pressure :: "int \<Rightarrow> int \<Rightarrow> int \<Rightarrow> int \<Rightarrow> real" where
  "spec_pressure start0 end pt_sum pt =
     (if pt_sum = 0 then of_int start0
      else of_int start0 - of_int (start0 - end) * of_int pt / of_int pt_sum)"

text \<open>
  The last run of a chain: its last segment and the segments before it, back
  to the nearest one with a known end pressure (excluded).
\<close>

definition last_run :: "pr_track list \<Rightarrow> pr_track list" where
  "last_run chain =
     (case rev chain of
        [] \<Rightarrow> []
      | tmp # before \<Rightarrow> rev (tmp # takeWhile (\<lambda>segment. end_pr segment = 0) before))"

subsection \<open>What the gap filler does to an entry, in the words of the specification\<close>

text \<open>
  The last-known pressure is carried forward at time \<open>s\<close> when the chain has no
  segment ending at or after \<open>s\<close>, or that segment has no pressure-time.
\<close>

definition carries_forward :: "pr_track list \<Rightarrow> int \<Rightarrow> bool" where
  "carries_forward chain s =
     (case find_segment chain s of
        [] \<Rightarrow> True
      | segment # _ \<Rightarrow> seg_pressure_time segment = 0)"

text \<open>The cylinder and the reading that a pass of the gap filler looks at.\<close>

definition filler_cylinder :: "int \<Rightarrow> int \<Rightarrow> plot_data \<Rightarrow> int" where
  "filler_cylinder DILUENT_CYLINDER diluent_flag entry =
     (if diluent_flag \<noteq> 0 then DILUENT_CYLINDER else cylinderindex entry)"

definition filler_pressure :: "int \<Rightarrow> plot_data \<Rightarrow> int" where
  "filler_pressure diluent_flag entry =
     (if diluent_flag \<noteq> 0 then DILUENT_PRESSURE entry else SENSOR_PRESSURE entry)"

definition filler_interpolated :: "int \<Rightarrow> plot_data \<Rightarrow> int" where
  "filler_interpolated diluent_flag entry =
     (if diluent_flag \<noteq> 0 then diluentpressure_INTERPOLATED_PR entry
      else pressure_INTERPOLATED_PR entry)"

text \<open>
  The relation between an entry and the same entry after a pass: an entry with
  a reading is left alone; otherwise exactly one slot may change, the sensor
  slot when the pressure is carried forward and the interpolated slot when it
  is interpolated.
\<close>

definition filled_entry ::
  "(int \<Rightarrow> pr_track list) \<Rightarrow> int \<Rightarrow> int \<Rightarrow> plot_data \<Rightarrow> plot_data \<Rightarrow> bool" where
  "filled_entry track_pr DILUENT_CYLINDER diluent_flag entry entry' =
     (if filler_pressure diluent_flag entry \<noteq> 0 then entry' = entry
      else if carries_forward (track_pr (filler_cylinder DILUENT_CYLINDER diluent_flag entry))
                (sec entry)
      then entry' = save_pressure diluent_flag entry (filler_pressure diluent_flag entry')
      else entry' = save_interpolated diluent_flag entry (filler_interpolated diluent_flag entry'))"

text \<open>The entries up to their pressure-time contribution.\<close>

definition without_pressure_time :: "plot_data list \<Rightarrow> plot_data list" where
  "without_pressure_time pi_entry = map (\<lambda>entry. entry\<lparr>pressure_time := 0\<rparr>) pi_entry"

text \<open>Every cylinder index of the profile is an index of the segment table.\<close>

definition cylinders_in_range :: "nat \<Rightarrow> plot_data list \<Rightarrow> bool" where
  "cylinders_in_range MAX_CYLINDERS pi_entry =
     list_all (\<lambda>entry. 0 \<le> cylinderindex entry \<and> cylinderindex entry < int MAX_CYLINDERS)
       pi_entry"

text \<open>
  The missing-pressure flag, in the words of the specification: some entry
  other than the first stays on the cylinder of its predecessor and has no
  reading.
\<close>

fun has_missing_pr :: "plot_data list \<Rightarrow> bool" where
  "has_missing_pr [] = False"
| "has_missing_pr [entry] = False"
| "has_missing_pr (previous # entry # rest) =
     ((cylinderindex entry = cylinderindex previous \<and> SENSOR_PRESSURE entry = 0)
      \<or> has_missing_pr (entry # rest))"

subsection \<open>Concrete inputs\<close>

text \<open>
  A depth model for the examples (1013 mbar at the surface, 1 mbar per 10 mm).
\<close>

definition example_depth_to_mbar :: "int \<Rightarrow> int" where
  "example_depth_to_mbar d = 1013 + d div 10"

text \<open>
  An entry at time \<open>t\<close> and depth \<open>d\<close> on cylinder \<open>cyl\<close>, with pressure-time
  \<open>ptime\<close> and sensor reading \<open>pr\<close>; nothing interpolated yet, no diluent.
\<close>

definition example_entry :: "int \<Rightarrow> int \<Rightarrow> int \<Rightarrow> int \<Rightarrow> int \<Rightarrow> plot_data" where
  "example_entry t d cyl ptime pr =
     \<lparr>sec = t, depth = d, cylinderindex = cyl, pressure_time = ptime,
      pressure_SENSOR_PR = pr, pressure_INTERPOLATED_PR = 0,
      diluentpressure_SENSOR_PR = 0, diluentpressure_INTERPOLATED_PR = 0\<rparr>"

text \<open>
  A segment with start and end pressure \<open>s\<close> and \<open>e\<close>, from time \<open>ts\<close> to \<open>te\<close>,
  with pressure-time \<open>ptime\<close>.
\<close>

definition example_segment :: "int \<Rightarrow> int \<Rightarrow> int \<Rightarrow> int \<Rightarrow> int \<Rightarrow> pr_track" where
  "example_segment s e ts te ptime =
     \<lparr>start = s, end_pr = e, t_start = ts, t_end = te, seg_pressure_time = ptime\<rparr>"

text \<open>
  A single surface segment with both pressures known and no pressure-time.
\<close>

definition surface_chain :: "pr_track list" where
  "surface_chain = [example_segment 200 170 0 10 0]"

text \<open>
  A chain of two runs: 200 down to 170 over two segments with pressure-times
  1 and 6, then two segments without any pressure.
\<close>

definition two_run_chain :: "pr_track list" where
  "two_run_chain =
     [example_segment 200 0 0 10 1, example_segment 0 170 10 20 6,
      example_segment 0 0 20 30 5, example_segment 0 0 30 40 6]"

text \<open>
  One run from 100 down to 95 over four segments with pressure-times
  19, 22, 24 and 35.
\<close>

definition four_segment_chain :: "pr_track list" where
  "four_segment_chain =
     [example_segment 100 0 0 10 19, example_segment 0 0 10 20 22,
      example_segment 0 0 20 30 24, example_segment 0 95 30 40 35]"

text \<open>
  The scenario of the specification: cylinder 0 reads 200 at \<open>t = 0\<close>, nothing
  at \<open>t = 10\<close> and \<open>t = 20\<close>, 170 at \<open>t = 30\<close>; the pressure-time contributions
  of the three intervals are 5, 5 and 10.  The segment builder makes of these
  readings one segment from 200 to 170 with pressure-time 20 and, at the
  recovered reading, a second segment that starts at 170.
\<close>

definition scenario_entries :: "plot_data list" where
  "scenario_entries =
     [example_entry 0 10000 0 0 200, example_entry 10 10000 0 5 0,
      example_entry 20 10000 0 5 0, example_entry 30 10000 0 10 170]"

definition scenario_track_pr :: "int \<Rightarrow> pr_track list" where
  "scenario_track_pr cyl =
     (if cyl = 0 then [example_segment 200 170 0 30 20, example_segment 170 0 30 30 0] else [])"

text \<open>
  A dive with the same readings whose depths give the three intervals
  pressure-times in the same proportion 1 : 1 : 2.
\<close>

definition scenario_dive :: "plot_data list" where
  "scenario_dive =
     [example_entry 0 10000 0 0 200, example_entry 10 10000 0 0 0,
      example_entry 20 10000 0 0 0, example_entry 30 50260 0 0 170]"

text \<open>
  Two entries at the surface, the second without a reading.
\<close>

definition surface_profile :: "plot_data list" where
  "surface_profile = [example_entry 0 0 0 0 200, example_entry 10 0 0 0 0]"

text \<open>
  An ascent: readings 200 and 190, then no reading at the surface, then 190.
\<close>

definition ascent_profile :: "plot_data list" where
  "ascent_profile =
     [example_entry 0 2000 0 0 200, example_entry 10 0 0 0 190,
      example_entry 20 0 0 0 0, example_entry 30 0 0 0 190]"

text \<open>
  A rebreather entry: main and diluent sensor read \<open>pr\<close> and \<open>dil\<close>.
\<close>

definition ccr_entry :: "int \<Rightarrow> int \<Rightarrow> int \<Rightarrow> int \<Rightarrow> plot_data" where
  "ccr_entry t d pr dil =
     \<lparr>sec = t, depth = d, cylinderindex = 0, pressure_time = 0,
      pressure_SENSOR_PR = pr, pressure_INTERPOLATED_PR = 0,
      diluentpressure_SENSOR_PR = dil, diluentpressure_INTERPOLATED_PR = 0\<rparr>"

definition ccr_profile :: "plot_data list" where
  "ccr_profile =
     [ccr_entry 0 10000 200 200, ccr_entry 10 10000 0 0,
      ccr_entry 20 10000 0 0, ccr_entry 30 50260 170 170]"

text \<open>A profile with a reading at every entry, on two cylinders.\<close>

definition resolved_profile :: "plot_data list" where
  "resolved_profile =
     [example_entry 0 10000 0 0 200, example_entry 10 10000 0 0 190,
      example_entry 20 10000 1 0 180]"

text \<open>
  A profile whose absent readings are at the first entry and at a cylinder
  switch only.
\<close>

definition switch_profile :: "plot_data list" where
  "switch_profile =
     [example_entry 0 10000 0 0 0, example_entry 10 10000 1 0 0,
      example_entry 20 10000 1 0 150]"

text \<open>
  The segment table the builder makes of \<open>surface_profile\<close>, and the table of
  last-known pressures with \<open>v\<close> for cylinder 0.
\<close>

definition surface_track_pr :: "int \<Rightarrow> pr_track list" where
  "surface_track_pr cyl = (if cyl = 0 then [example_segment 200 0 0 10 0] else [])"

definition example_cur_pr :: "int \<Rightarrow> int \<Rightarrow> int" where
  "example_cur_pr v cyl = (if cyl = 0 then v else - 1)"

text \<open>
  \<open>ascent_profile\<close> with its pressure-times, and its redistributed segments.
\<close>

definition ascent_entries :: "plot_data list" where
  "ascent_entries =
     [example_entry 0 2000 0 0 200, example_entry 10 0 0 11130 190,
      example_entry 20 0 0 0 0, example_entry 30 0 0 0 190]"

definition ascent_track_pr :: "int \<Rightarrow> pr_track list" where
  "ascent_track_pr cyl =
     (if cyl = 0 then [example_segment 200 190 0 30 11130, example_segment 190 190 30 30 0]
      else [])"

text \<open>
  \<open>ccr_profile\<close> with its pressure-times, and a chain for the diluent in slot 1
  of the segment table.
\<close>

definition ccr_entries :: "plot_data list" where
  "ccr_entries =
     [ccr_entry 0 10000 200 200, (ccr_entry 10 10000 0 0)\<lparr>pressure_time := 20130\<rparr>,
      (ccr_entry 20 10000 0 0)\<lparr>pressure_time := 20130\<rparr>,
      (ccr_entry 30 50260 170 170)\<lparr>pressure_time := 40260\<rparr>]"

definition ccr_track_pr :: "int \<Rightarrow> pr_track list" where
  "ccr_track_pr cyl =
     (if cyl = 1 then [example_segment 200 170 0 30 80520, example_segment 170 0 30 30 0]
      else [])"

section \<open>Properties\<close>

subsection \<open>The workload integrator\<close>

text \<open>
  C1 (amended).  The contribution of a pair of entries \<open>(a, b)\<close> is zero when
  their mean depth (C integer division) does not exceed the surface threshold,
  and otherwise the ambient pressure at the mean depth times the elapsed time.
  The mean depth is not a factor of the product.
\<close>

theorem calc_pressure_time_value:
  "((plot_data.depth a + plot_data.depth b) sdiv 2 \<le> SURFACE_THRESHOLD
      \<longrightarrow> calc_pressure_time SURFACE_THRESHOLD depth_to_mbar a b = 0)
   \<and> (SURFACE_THRESHOLD < (plot_data.depth a + plot_data.depth b) sdiv 2
      \<longrightarrow> calc_pressure_time SURFACE_THRESHOLD depth_to_mbar a b
          = depth_to_mbar ((plot_data.depth a + plot_data.depth b) sdiv 2) * (sec b - sec a))"
  by (simp add: calc_pressure_time_def Let_def)

theorem calc_pressure_time_value_witness:
  "(plot_data.depth (example_entry 0 200 0 0 0) + plot_data.depth (example_entry 10 1000 0 0 0)) sdiv 2 \<le> 750
   \<and> calc_pressure_time 750 example_depth_to_mbar
       (example_entry 0 200 0 0 0) (example_entry 10 1000 0 0 0) = 0
   \<and> 750 < (plot_data.depth (example_entry 0 10000 0 0 0) + plot_data.depth (example_entry 10 10001 0 0 0)) sdiv 2
   \<and> calc_pressure_time 750 example_depth_to_mbar
       (example_entry 0 10000 0 0 0) (example_entry 10 10001 0 0 0) = 20130"
  using calc_pressure_time_value [of "example_entry 0 200 0 0 0" "example_entry 10 1000 0 0 0" 750 example_depth_to_mbar]
    calc_pressure_time_value [of "example_entry 0 10000 0 0 0" "example_entry 10 10001 0 0 0" 750 example_depth_to_mbar]
  by (simp add: example_entry_def example_depth_to_mbar_def signed_divide_int_def)

text \<open>
  C1 as stated fails: at 10 m for 10 s the code yields 2013 * 10, not
  10000 * 10 * 2013.
\<close>

theorem calc_pressure_time_counterexample:
  "calc_pressure_time 750 example_depth_to_mbar
     (example_entry 0 10000 0 0 0) (example_entry 10 10000 0 0 0)
   \<noteq> ((plot_data.depth (example_entry 0 10000 0 0 0)
         + plot_data.depth (example_entry 10 10000 0 0 0)) sdiv 2)
      * (sec (example_entry 10 10000 0 0 0) - sec (example_entry 0 10000 0 0 0))
      * example_depth_to_mbar ((plot_data.depth (example_entry 0 10000 0 0 0)
         + plot_data.depth (example_entry 10 10000 0 0 0)) sdiv 2)"
  by (simp add: calc_pressure_time_def example_entry_def example_depth_to_mbar_def
      signed_divide_int_def)

subsection \<open>Segment-level redistribution\<close>

lemma dole_pressure_eq:
  "dole_pressure s e S pt = Inr (int_of_double (spec_pressure s e S pt))"
  by (simp add: dole_pressure_def double_div_def spec_pressure_def int_of_double_def)

lemma run_length_Cons:
  "run_length (tmp # rest) =
     (if end_pr tmp \<noteq> 0 \<or> rest = [] then 1 else Suc (run_length rest))"
  by (auto simp: run_length_def)

lemma run_length_pos: "chain \<noteq> [] \<Longrightarrow> 0 < run_length chain"
  by (cases chain) (simp_all add: run_length_Cons)

lemma run_length_le: "run_length chain \<le> length chain"
  by (simp add: run_length_def)

lemma first_run_Cons:
  "first_run (tmp # rest) =
     (if end_pr tmp \<noteq> 0 \<or> rest = [] then [tmp] else tmp # first_run rest)"
  by (simp add: first_run_def run_length_Cons)

lemma first_run_nonempty: "chain \<noteq> [] \<Longrightarrow> first_run chain \<noteq> []"
  by (cases chain) (simp_all add: first_run_Cons)

lemma find_run_end_eq:
  "find_run_end s acc tmp rest =
     (acc + run_pt_sum (first_run (tmp # rest)),
      (if end_pr (last (first_run (tmp # rest))) \<noteq> 0
       then end_pr (last (first_run (tmp # rest))) else s),
      run_length (tmp # rest) - 1)"
proof (induction rest arbitrary: tmp acc)
  case Nil
  show ?case by (simp add: first_run_Cons run_length_Cons run_pt_sum_def Let_def)
next
  case (Cons nxt rest)
  show ?case
  proof (cases "end_pr tmp = 0")
    case False
    then show ?thesis by (simp add: first_run_Cons run_length_Cons run_pt_sum_def Let_def)
  next
    case True
    have ne: "first_run (nxt # rest) \<noteq> []" by (rule first_run_nonempty) simp
    have pos: "0 < run_length (nxt # rest)" by (rule run_length_pos) simp
    show ?thesis
      using True ne pos
      by (simp add: Cons.IH first_run_Cons [of tmp] run_length_Cons [of tmp] run_pt_sum_def Let_def)
  qed
qed

lemma dole_out_char:
  "\<exists>ys. dole_out s e S pt run = Inr ys \<and> length ys = length run
     \<and> (\<forall>k<length run.
          end_pr (ys ! k) = int_of_double (spec_pressure s e S (pt + run_pt_sum (take (Suc k) run)))
        \<and> start (ys ! k) = (if k = 0 then start (run ! 0) else end_pr (ys ! (k - 1)))
        \<and> t_start (ys ! k) = t_start (run ! k)
        \<and> t_end (ys ! k) = t_end (run ! k)
        \<and> seg_pressure_time (ys ! k) = seg_pressure_time (run ! k))"
proof (induction s e S pt run rule: dole_out.induct)
  case (1 s e S pt)
  show ?case by simp
next
  case (2 s e S pt list)
  show ?case by (simp add: dole_pressure_eq run_pt_sum_def)
next
  case (3 s e S pt list nxt rest)
  define pressure where "pressure = int_of_double (spec_pressure s e S (pt + seg_pressure_time list))"
  have dp: "dole_pressure s e S (pt + seg_pressure_time list) = Inr pressure"
    by (simp add: dole_pressure_eq pressure_def)
  from 3 [OF dp] obtain ys where
    ys: "dole_out s e S (pt + seg_pressure_time list) (nxt\<lparr>start := pressure\<rparr> # rest) = Inr ys"
    and len: "length ys = length (nxt\<lparr>start := pressure\<rparr> # rest)"
    and el: "\<And>k. k < length (nxt\<lparr>start := pressure\<rparr> # rest) \<Longrightarrow>
          end_pr (ys ! k) = int_of_double (spec_pressure s e S
             (pt + seg_pressure_time list + run_pt_sum (take (Suc k) (nxt\<lparr>start := pressure\<rparr> # rest))))
        \<and> start (ys ! k) = (if k = 0 then start ((nxt\<lparr>start := pressure\<rparr> # rest) ! 0) else end_pr (ys ! (k - 1)))
        \<and> t_start (ys ! k) = t_start ((nxt\<lparr>start := pressure\<rparr> # rest) ! k)
        \<and> t_end (ys ! k) = t_end ((nxt\<lparr>start := pressure\<rparr> # rest) ! k)
        \<and> seg_pressure_time (ys ! k) = seg_pressure_time ((nxt\<lparr>start := pressure\<rparr> # rest) ! k)"
    by blast
  let ?zs = "list\<lparr>end_pr := pressure\<rparr> # ys"
  have res: "dole_out s e S pt (list # nxt # rest) = Inr ?zs"
    by (simp add: dp ys)
  have "\<forall>k<length (list # nxt # rest).
          end_pr (?zs ! k) = int_of_double (spec_pressure s e S (pt + run_pt_sum (take (Suc k) (list # nxt # rest))))
        \<and> start (?zs ! k) = (if k = 0 then start ((list # nxt # rest) ! 0) else end_pr (?zs ! (k - 1)))
        \<and> t_start (?zs ! k) = t_start ((list # nxt # rest) ! k)
        \<and> t_end (?zs ! k) = t_end ((list # nxt # rest) ! k)
        \<and> seg_pressure_time (?zs ! k) = seg_pressure_time ((list # nxt # rest) ! k)"
  proof (intro allI impI)
    fix k assume k: "k < length (list # nxt # rest)"
    show "end_pr (?zs ! k) = int_of_double (spec_pressure s e S (pt + run_pt_sum (take (Suc k) (list # nxt # rest))))
        \<and> start (?zs ! k) = (if k = 0 then start ((list # nxt # rest) ! 0) else end_pr (?zs ! (k - 1)))
        \<and> t_start (?zs ! k) = t_start ((list # nxt # rest) ! k)
        \<and> t_end (?zs ! k) = t_end ((list # nxt # rest) ! k)
        \<and> seg_pressure_time (?zs ! k) = seg_pressure_time ((list # nxt # rest) ! k)"
    proof (cases k)
      case 0
      then show ?thesis by (simp add: pressure_def run_pt_sum_def)
    next
      case (Suc j)
      with k have j: "j < length (nxt\<lparr>start := pressure\<rparr> # rest)" by simp
      have sum: "run_pt_sum (take (Suc (Suc j)) (list # nxt # rest))
                 = seg_pressure_time list + run_pt_sum (take (Suc j) (nxt\<lparr>start := pressure\<rparr> # rest))"
        by (simp add: run_pt_sum_def)
      show ?thesis
      proof (cases j)
        case 0
        with el [OF j] Suc sum show ?thesis by (simp add: add.assoc)
      next
        case (Suc i)
        with el [OF j] \<open>k = Suc j\<close> sum show ?thesis by (simp add: add.assoc)
      qed
    qed
  qed
  with res len show ?case by (intro exI [of _ ?zs]) simp
qed


lemma run_of_length: "n \<le> length rest \<Longrightarrow> length (run_of s e n list rest) = Suc n"
  by (simp add: run_of_def Let_def del: list_update.simps)

lemma map_update_same: "f y = f (xs ! n) \<Longrightarrow> map f (xs[n := y]) = map f xs"
  by (cases "n < length xs") (simp_all add: map_update list_update_same_conv list_update_beyond)

lemma run_of_fields:
  "map seg_pressure_time (run_of s e n list rest) = map seg_pressure_time (take (Suc n) (list # rest))"
  "map t_start (run_of s e n list rest) = map t_start (take (Suc n) (list # rest))"
  "map t_end (run_of s e n list rest) = map t_end (take (Suc n) (list # rest))"
  by (simp_all add: run_of_def Let_def map_update_same del: list_update.simps)

lemma run_of_start: "start (run_of s e n list rest ! 0) = s"
  by (cases n) (simp_all add: run_of_def Let_def)

lemma run_pt_sum_take_cong:
  assumes "map seg_pressure_time xs = map seg_pressure_time ys"
  shows "run_pt_sum (take k xs) = run_pt_sum (take k ys)"
proof -
  have "map seg_pressure_time (take k xs) = map seg_pressure_time (take k ys)"
    using assms by (simp add: take_map [symmetric])
  then show ?thesis by (simp add: run_pt_sum_def)
qed

lemma nth_field_cong:
  assumes "map f xs = map f ys" "k < length xs"
  shows "f (xs ! k) = f (ys ! k)"
proof -
  have "length xs = length ys" using assms(1) by (rule map_eq_imp_length_eq)
  with assms show ?thesis by (metis nth_map)
qed

lemma fill_Cons:
  assumes "n = run_length (list # rest) - 1"
  shows "fill_missing_segment_pressures (list # rest) =
     (case dole_out (run_start (list # rest)) (run_end (list # rest))
             (run_pt_sum (first_run (list # rest))) 0
             (run_of (run_start (list # rest)) (run_end (list # rest)) n list rest) of
        Inl f \<Rightarrow> Inl f
      | Inr done \<Rightarrow>
         (case fill_missing_segment_pressures (drop n rest) of
            Inl f \<Rightarrow> Inl f
          | Inr others \<Rightarrow> Inr (done @ others)))"
proof -
  have fr: "find_run_end (start list) 0 list rest
              = (run_pt_sum (first_run (list # rest)), run_end (list # rest), n)"
    by (simp add: find_run_end_eq run_end_def assms)
  have rs: "(if start list = 0 then run_end (list # rest) else start list) = run_start (list # rest)"
    by (simp add: run_start_def)
  show ?thesis by (simp add: fr rs Let_def)
qed

lemma fill_total:
  "\<exists>ys. fill_missing_segment_pressures chain = Inr ys \<and> length ys = length chain"
proof (induction "length chain" arbitrary: chain rule: less_induct)
  case less
  show ?case
  proof (cases chain)
    case Nil
    then show ?thesis by simp
  next
    case (Cons list rest)
    define n where "n = run_length (list # rest) - 1"
    have le: "run_length (list # rest) \<le> Suc (length rest)"
      using run_length_le [of "list # rest"] by simp
    then have n1: "n \<le> length rest" by (simp add: n_def)
    obtain dn where dn: "dole_out (run_start (list # rest)) (run_end (list # rest))
             (run_pt_sum (first_run (list # rest))) 0
             (run_of (run_start (list # rest)) (run_end (list # rest)) n list rest) = Inr dn"
      and ld: "length dn = length (run_of (run_start (list # rest)) (run_end (list # rest)) n list rest)"
      using dole_out_char by blast
    have "length (drop n rest) < length chain" using Cons by simp
    from less [OF this] obtain others where
      others: "fill_missing_segment_pressures (drop n rest) = Inr others"
      and lo: "length others = length (drop n rest)" by blast
    have "length (dn @ others) = length chain"
      using ld lo run_of_length [OF n1] n1 Cons by simp
    moreover have "fill_missing_segment_pressures chain = Inr (dn @ others)"
      unfolding Cons fill_Cons [OF n_def] by (simp add: dn others)
    ultimately show ?thesis by blast
  qed
qed

lemma fill_run_Cons:
  "\<exists>dn others.
           fill_missing_segment_pressures (list # rest) = Inr (dn @ others)
         \<and> length dn = run_length (list # rest)
         \<and> fill_missing_segment_pressures (drop (run_length (list # rest)) (list # rest)) = Inr others
         \<and> (\<forall>k<run_length (list # rest).
              end_pr (dn ! k) = int_of_double (spec_pressure (run_start (list # rest)) (run_end (list # rest))
                  (run_pt_sum (first_run (list # rest))) (run_pt_sum (take (Suc k) (list # rest))))
            \<and> start (dn ! k) = (if k = 0 then run_start (list # rest) else end_pr (dn ! (k - 1)))
            \<and> t_start (dn ! k) = t_start ((list # rest) ! k)
            \<and> t_end (dn ! k) = t_end ((list # rest) ! k)
            \<and> seg_pressure_time (dn ! k) = seg_pressure_time ((list # rest) ! k))"
proof -
  let ?chain = "list # rest"
  define n where "n = run_length (list # rest) - 1"
  define run where "run = run_of (run_start ?chain) (run_end ?chain) n list rest"
  have pos: "0 < run_length ?chain" by (rule run_length_pos) simp
  have le: "run_length ?chain \<le> Suc (length rest)"
    using run_length_le [of ?chain] by simp
  have Sn: "run_length ?chain = Suc n" using pos by (simp add: n_def)
  from le Sn have n1: "n \<le> length rest" by simp
  have lrun: "length run = run_length ?chain"
    unfolding run_def using run_of_length [OF n1] Sn by simp
  have dr: "drop (run_length ?chain) ?chain = drop n rest"
    by (simp add: Sn)
  have m1: "map seg_pressure_time run = map seg_pressure_time (take (run_length ?chain) ?chain)"
    unfolding run_def Sn by (rule run_of_fields)
  have m2: "map t_start run = map t_start (take (run_length ?chain) ?chain)"
    unfolding run_def Sn by (rule run_of_fields)
  have m3: "map t_end run = map t_end (take (run_length ?chain) ?chain)"
    unfolding run_def Sn by (rule run_of_fields)
  have st: "start (run ! 0) = run_start ?chain"
    unfolding run_def by (rule run_of_start)
  obtain dn where dn: "dole_out (run_start ?chain) (run_end ?chain)
             (run_pt_sum (first_run ?chain)) 0 run = Inr dn"
    and ld: "length dn = length run"
    and el: "\<And>k. k < length run \<Longrightarrow>
          end_pr (dn ! k) = int_of_double (spec_pressure (run_start ?chain) (run_end ?chain)
              (run_pt_sum (first_run ?chain)) (0 + run_pt_sum (take (Suc k) run)))
        \<and> start (dn ! k) = (if k = 0 then start (run ! 0) else end_pr (dn ! (k - 1)))
        \<and> t_start (dn ! k) = t_start (run ! k)
        \<and> t_end (dn ! k) = t_end (run ! k)
        \<and> seg_pressure_time (dn ! k) = seg_pressure_time (run ! k)"
    using dole_out_char by blast
  obtain others where others: "fill_missing_segment_pressures (drop n rest) = Inr others"
    using fill_total by blast
  have res: "fill_missing_segment_pressures ?chain = Inr (dn @ others)"
    unfolding fill_Cons [OF n_def]
    using dn others by (simp add: run_def)
  have "\<forall>k<run_length ?chain.
              end_pr (dn ! k) = int_of_double (spec_pressure (run_start ?chain) (run_end ?chain)
                  (run_pt_sum (first_run ?chain)) (run_pt_sum (take (Suc k) ?chain)))
            \<and> start (dn ! k) = (if k = 0 then run_start ?chain else end_pr (dn ! (k - 1)))
            \<and> t_start (dn ! k) = t_start (?chain ! k)
            \<and> t_end (dn ! k) = t_end (?chain ! k)
            \<and> seg_pressure_time (dn ! k) = seg_pressure_time (?chain ! k)"
  proof (intro allI impI)
    fix k assume k: "k < run_length ?chain"
    then have k': "k < length run" using lrun by simp
    have "run_pt_sum (take (Suc k) run) = run_pt_sum (take (Suc k) (take (run_length ?chain) ?chain))"
      by (rule run_pt_sum_take_cong [OF m1])
    also have "\<dots> = run_pt_sum (take (Suc k) ?chain)" using k by (simp add: min_def)
    finally have s: "run_pt_sum (take (Suc k) run) = run_pt_sum (take (Suc k) ?chain)" .
    have f1: "seg_pressure_time (run ! k) = seg_pressure_time (?chain ! k)"
      using nth_field_cong [OF m1 k'] k by simp
    have f2: "t_start (run ! k) = t_start (?chain ! k)"
      using nth_field_cong [OF m2 k'] k by simp
    have f3: "t_end (run ! k) = t_end (?chain ! k)"
      using nth_field_cong [OF m3 k'] k by simp
    show "end_pr (dn ! k) = int_of_double (spec_pressure (run_start ?chain) (run_end ?chain)
                  (run_pt_sum (first_run ?chain)) (run_pt_sum (take (Suc k) ?chain)))
            \<and> start (dn ! k) = (if k = 0 then run_start ?chain else end_pr (dn ! (k - 1)))
            \<and> t_start (dn ! k) = t_start (?chain ! k)
            \<and> t_end (dn ! k) = t_end (?chain ! k)
            \<and> seg_pressure_time (dn ! k) = seg_pressure_time (?chain ! k)"
      using el [OF k'] s f1 f2 f3 st by simp
  qed
  with res ld lrun others dr show ?thesis by (intro exI [of _ dn] exI [of _ others]) simp
qed


lemma run_length_full:
  "run_length chain = length chain \<Longrightarrow> \<forall>s\<in>set (butlast chain). end_pr s = 0"
proof (induction chain)
  case Nil
  show ?case by simp
next
  case (Cons tmp rest)
  show ?case
  proof (cases "rest = []")
    case True
    then show ?thesis by simp
  next
    case False
    with Cons.prems have "end_pr tmp = 0" "run_length rest = length rest"
      by (auto simp: run_length_Cons split: if_splits)
    with Cons.IH False show ?thesis by simp
  qed
qed

lemma run_length_stop:
  "run_length chain < length chain \<Longrightarrow> end_pr (last (first_run chain)) \<noteq> 0"
proof (induction chain)
  case Nil
  then show ?case by simp
next
  case (Cons tmp rest)
  show ?case
  proof (cases "end_pr tmp \<noteq> 0 \<or> rest = []")
    case True
    with Cons.prems show ?thesis by (auto simp: first_run_Cons run_length_Cons)
  next
    case False
    then have ne: "first_run rest \<noteq> []" by (simp add: first_run_nonempty)
    from False Cons.prems have "run_length rest < length rest" by (simp add: run_length_Cons)
    from Cons.IH [OF this] False ne show ?thesis by (simp add: first_run_Cons)
  qed
qed

lemma last_run_all:
  assumes "\<forall>s\<in>set (butlast chain). end_pr s = 0"
  shows "last_run chain = chain"
proof (cases chain rule: rev_cases)
  case Nil
  then show ?thesis by (simp add: last_run_def)
next
  case (snoc before tmp)
  with assms have tw: "takeWhile (\<lambda>segment. end_pr segment = 0) (rev before) = rev before"
    by (simp add: takeWhile_eq_all_conv)
  show ?thesis unfolding last_run_def snoc by (simp add: tw)
qed

lemma last_run_append:
  assumes "xs \<noteq> []" "end_pr (last xs) \<noteq> 0" "ys \<noteq> []"
  shows "last_run (xs @ ys) = last_run ys"
proof -
  from assms(3) obtain before tmp where ys: "ys = before @ [tmp]"
    by (cases ys rule: rev_cases) auto
  from assms(1) obtain xs' lx where xs: "xs = xs' @ [lx]"
    by (cases xs rule: rev_cases) auto
  with assms(2) have lx: "end_pr lx \<noteq> 0" by simp
  have "takeWhile (\<lambda>segment. end_pr segment = 0) (rev before @ lx # rev xs')
        = takeWhile (\<lambda>segment. end_pr segment = 0) (rev before)"
  proof (cases "\<forall>s\<in>set (rev before). end_pr s = 0")
    case True
    then have a: "takeWhile (\<lambda>segment. end_pr segment = 0) (rev before) = rev before"
      by (simp add: takeWhile_eq_all_conv)
    have "takeWhile (\<lambda>segment. end_pr segment = 0) (rev before @ lx # rev xs')
          = rev before @ takeWhile (\<lambda>segment. end_pr segment = 0) (lx # rev xs')"
      using True by (intro takeWhile_append2) simp
    also have "\<dots> = rev before" using lx by simp
    finally show ?thesis unfolding a .
  next
    case False
    then obtain s where "s \<in> set (rev before)" "\<not> end_pr s = 0" by blast
    then show ?thesis by (rule takeWhile_append1)
  qed
  then show ?thesis by (simp add: last_run_def ys xs)
qed

lemma int_of_double_of_int: "int_of_double (of_int k) = k"
  by (simp add: int_of_double_def)

lemma spec_pressure_total: "S \<noteq> 0 \<Longrightarrow> spec_pressure s e S S = of_int e"
  by (simp add: spec_pressure_def)

lemma spec_pressure_zero: "spec_pressure s e S 0 = of_int s"
  by (simp add: spec_pressure_def)

lemma fill_last_end:
  "chain \<noteq> [] \<Longrightarrow> end_pr (last chain) \<noteq> 0 \<Longrightarrow> run_pt_sum (last_run chain) \<noteq> 0
     \<Longrightarrow> fill_missing_segment_pressures chain = Inr ys
     \<Longrightarrow> end_pr (last ys) = end_pr (last chain)"
proof (induction "length chain" arbitrary: chain ys rule: less_induct)
  case less
  from less.prems(1) obtain list rest where chain: "chain = list # rest" by (cases chain) auto
  let ?n = "run_length chain"
  obtain dn others where
    res: "fill_missing_segment_pressures chain = Inr (dn @ others)"
    and ld: "length dn = ?n"
    and oth: "fill_missing_segment_pressures (drop ?n chain) = Inr others"
    and el: "\<And>k. k < ?n \<Longrightarrow> end_pr (dn ! k) = int_of_double (spec_pressure (run_start chain)
        (run_end chain) (run_pt_sum (first_run chain)) (run_pt_sum (take (Suc k) chain)))"
    using fill_run_Cons [of list rest] unfolding chain by blast
  have pos: "0 < ?n" using less.prems(1) by (rule run_length_pos)
  have le: "?n \<le> length chain" by (rule run_length_le)
  from res less.prems(4) have ys: "ys = dn @ others" by simp
  from fill_total [of "drop ?n chain"] oth have lo: "length others = length chain - ?n" by auto
  show ?case
  proof (cases "?n = length chain")
    case True
    with lo have "others = []" by simp
    moreover have "dn \<noteq> []" using ld pos by auto
    ultimately have l: "last ys = dn ! (?n - 1)" using ys ld by (simp add: last_conv_nth)
    have fr: "first_run chain = chain" using True by (simp add: first_run_def)
    have lr: "last_run chain = chain" using run_length_full [OF True] by (rule last_run_all)
    have re: "run_end chain = end_pr (last chain)" using less.prems(2) by (simp add: run_end_def fr)
    have "end_pr (dn ! (?n - 1)) = int_of_double (spec_pressure (run_start chain)
        (run_end chain) (run_pt_sum chain) (run_pt_sum chain))"
      using el [of "?n - 1"] pos True fr by simp
    also have "\<dots> = end_pr (last chain)"
      using less.prems(3) by (simp add: lr spec_pressure_total re int_of_double_of_int)
    finally show ?thesis using l by simp
  next
    case False
    with le have lt: "?n < length chain" by simp
    have split: "chain = first_run chain @ drop ?n chain" by (simp add: first_run_def)
    have ne1: "first_run chain \<noteq> []" using less.prems(1) by (rule first_run_nonempty)
    have ne2: "drop ?n chain \<noteq> []" using lt by simp
    have lr: "last_run chain = last_run (drop ?n chain)"
      using last_run_append [OF ne1 run_length_stop [OF lt] ne2] split by simp
    have la: "last chain = last (drop ?n chain)" using lt by simp
    have "length (drop ?n chain) < length chain" using pos lt by simp
    from less.hyps [OF this ne2 _ _ oth] less.prems(2,3) lr la
    have "end_pr (last others) = end_pr (last chain)" by simp
    moreover have "others \<noteq> []" using lo lt by auto
    ultimately show ?thesis using ys by simp
  qed
qed

lemma fill_first_start:
  assumes "chain \<noteq> []" "start (hd chain) \<noteq> 0" "fill_missing_segment_pressures chain = Inr ys"
  shows "start (hd ys) = start (hd chain)"
proof -
  from assms(1) obtain list rest where chain: "chain = list # rest" by (cases chain) auto
  obtain dn others where
    res: "fill_missing_segment_pressures chain = Inr (dn @ others)"
    and ld: "length dn = run_length chain"
    and el: "\<And>k. k < run_length chain \<Longrightarrow>
       start (dn ! k) = (if k = 0 then run_start chain else end_pr (dn ! (k - 1)))"
    using fill_run_Cons [of list rest] unfolding chain by blast
  have pos: "0 < run_length chain" using assms(1) by (rule run_length_pos)
  with ld have "dn \<noteq> []" by auto
  with res assms(3) have "hd ys = dn ! 0" by (auto simp: hd_conv_nth hd_append)
  with el [OF pos] assms(2) show ?thesis by (simp add: run_start_def)
qed


lemma floor_drop_bound:
  fixes xa ya xb yb :: real
  assumes "xb - yb \<le> xa - ya"
  shows "\<lfloor>xb\<rfloor> - \<lfloor>yb\<rfloor> \<le> \<lfloor>xa\<rfloor> - \<lfloor>ya\<rfloor> + 1"
proof -
  have "of_int \<lfloor>xb\<rfloor> \<le> xb" "yb < of_int \<lfloor>yb\<rfloor> + 1"
       "xa < of_int \<lfloor>xa\<rfloor> + 1" "of_int \<lfloor>ya\<rfloor> \<le> ya"
    by linarith+
  with assms have "real_of_int \<lfloor>xb\<rfloor> - real_of_int \<lfloor>yb\<rfloor>
                   < real_of_int \<lfloor>xa\<rfloor> - real_of_int \<lfloor>ya\<rfloor> + 2"
    by linarith
  then have "(of_int (\<lfloor>xb\<rfloor> - \<lfloor>yb\<rfloor>) :: real) < of_int (\<lfloor>xa\<rfloor> - \<lfloor>ya\<rfloor> + 2)"
    by simp
  then have "\<lfloor>xb\<rfloor> - \<lfloor>yb\<rfloor> < \<lfloor>xa\<rfloor> - \<lfloor>ya\<rfloor> + 2" by (simp only: of_int_less_iff)
  then show ?thesis by simp
qed

lemma run_pt_sum_take_Suc:
  "k < length chain \<Longrightarrow>
     run_pt_sum (take (Suc k) chain) = run_pt_sum (take k chain) + seg_pressure_time (chain ! k)"
  by (simp add: run_pt_sum_def take_Suc_conv_app_nth)

lemma run_pt_sum_nonneg:
  "\<forall>segment\<in>set run. 0 \<le> seg_pressure_time segment \<Longrightarrow> 0 \<le> run_pt_sum run"
  unfolding run_pt_sum_def by (rule sum_list_nonneg) auto

lemma run_pt_sum_take_bounds:
  assumes "\<forall>segment\<in>set run. 0 \<le> seg_pressure_time segment"
  shows "0 \<le> run_pt_sum (take k run) \<and> run_pt_sum (take k run) \<le> run_pt_sum run"
proof -
  have a: "0 \<le> run_pt_sum (take k run)"
    using assms by (intro run_pt_sum_nonneg) (auto dest: in_set_takeD)
  have b: "0 \<le> run_pt_sum (drop k run)"
    using assms by (intro run_pt_sum_nonneg) (auto dest: in_set_dropD)
  have "run_pt_sum run = run_pt_sum (take k run) + run_pt_sum (drop k run)"
    unfolding run_pt_sum_def by (metis append_take_drop_id map_append sum_list_append)
  with a b show ?thesis by simp
qed

lemma spec_pressure_floor:
  assumes "0 \<le> e" "e \<le> s" "0 < S" "0 \<le> x" "x \<le> S"
  shows "int_of_double (spec_pressure s e S x) = \<lfloor>spec_pressure s e S x\<rfloor>"
proof -
  have "real_of_int x / real_of_int S \<le> 1" using assms by simp
  then have "real_of_int (s - e) * (real_of_int x / real_of_int S) \<le> real_of_int (s - e) * 1"
    using assms(2) by (intro mult_left_mono) simp_all
  then have "real_of_int e \<le> spec_pressure s e S x"
    using assms(3) by (simp add: spec_pressure_def)
  with assms(1) have "0 \<le> spec_pressure s e S x" by linarith
  then show ?thesis by (simp add: int_of_double_def)
qed

lemma spec_pressure_diff:
  assumes "S \<noteq> 0"
  shows "spec_pressure s e S x - spec_pressure s e S (x + p)
         = real_of_int (s - e) * real_of_int p / real_of_int S"
  using assms by (simp add: spec_pressure_def field_simps)

lemma fill_drops:
  assumes ne: "chain \<noteq> []"
    and dec: "run_end chain < run_start chain"
    and e0: "0 \<le> run_end chain"
    and pts: "\<forall>segment\<in>set (first_run chain). 0 \<le> seg_pressure_time segment"
    and res: "fill_missing_segment_pressures chain = Inr ys"
    and a: "a < run_length chain" and b: "b < run_length chain"
    and ab: "seg_pressure_time (chain ! b) < seg_pressure_time (chain ! a)"
  shows "start (ys ! b) - end_pr (ys ! b) \<le> start (ys ! a) - end_pr (ys ! a) + 1"
proof -
  from ne obtain list rest where chain: "chain = list # rest" by (cases chain) auto
  let ?n = "run_length chain"
  let ?s = "run_start chain" and ?e = "run_end chain" and ?S = "run_pt_sum (first_run chain)"
  define c where "c k = run_pt_sum (take k chain)" for k
  define v where "v k = spec_pressure ?s ?e ?S (c k)" for k
  obtain dn others where
    res': "fill_missing_segment_pressures chain = Inr (dn @ others)"
    and ld: "length dn = ?n"
    and el: "\<And>k. k < ?n \<Longrightarrow> end_pr (dn ! k) = int_of_double (v (Suc k))
       \<and> start (dn ! k) = (if k = 0 then ?s else end_pr (dn ! (k - 1)))"
    using fill_run_Cons [of list rest] unfolding chain v_def c_def by blast
  from res res' have ys: "ys = dn @ others" by simp
  have le: "?n \<le> length chain" by (rule run_length_le)
  have nth: "ys ! k = dn ! k" if "k < ?n" for k using that ys ld by (simp add: nth_append)
  have v0: "int_of_double (v 0) = ?s"
    by (simp add: v_def c_def run_pt_sum_def spec_pressure_zero int_of_double_of_int)
  have en: "end_pr (ys ! k) = int_of_double (v (Suc k))" if "k < ?n" for k
    using el [OF that] nth [OF that] by simp
  have st: "start (ys ! k) = int_of_double (v k)" if "k < ?n" for k
  proof (cases k)
    case 0
    with el [OF that] nth [OF that] v0 show ?thesis by simp
  next
    case (Suc j)
    with that have "j < ?n" by simp
    from el [OF this] el [OF that] nth [OF that] Suc show ?thesis by simp
  qed
  have cS: "c (Suc k) = c k + seg_pressure_time (chain ! k)" if "k < ?n" for k
    unfolding c_def using that le by (intro run_pt_sum_take_Suc) simp
  show ?thesis
  proof (cases "?S = 0")
    case True
    then have "int_of_double (v k) = ?s" for k
      by (simp add: v_def spec_pressure_def int_of_double_of_int)
    with st [OF a] st [OF b] en [OF a] en [OF b] show ?thesis by simp
  next
    case False
    with run_pt_sum_nonneg [OF pts] have S: "0 < ?S" by simp
    have bounds: "0 \<le> c k \<and> c k \<le> ?S" if "k \<le> ?n" for k
    proof -
      have "take k chain = take k (first_run chain)" using that by (simp add: first_run_def min_def)
      then show ?thesis unfolding c_def using run_pt_sum_take_bounds [OF pts, of k] by simp
    qed
    have fl: "int_of_double (v k) = \<lfloor>v k\<rfloor>" if "k \<le> ?n" for k
      unfolding v_def using e0 dec S bounds [OF that] by (intro spec_pressure_floor) simp_all
    have diff: "v k - v (Suc k) = real_of_int (?s - ?e) * real_of_int (seg_pressure_time (chain ! k)) / real_of_int ?S"
      if "k < ?n" for k
      unfolding v_def cS [OF that] using False by (rule spec_pressure_diff)
    have "real_of_int (?s - ?e) * real_of_int (seg_pressure_time (chain ! b)) / real_of_int ?S
          \<le> real_of_int (?s - ?e) * real_of_int (seg_pressure_time (chain ! a)) / real_of_int ?S"
      using dec ab S by (intro divide_right_mono mult_left_mono) simp_all
    then have "v b - v (Suc b) \<le> v a - v (Suc a)" using diff [OF a] diff [OF b] by simp
    then have "\<lfloor>v b\<rfloor> - \<lfloor>v (Suc b)\<rfloor> \<le> \<lfloor>v a\<rfloor> - \<lfloor>v (Suc a)\<rfloor> + 1" by (rule floor_drop_bound)
    moreover have "int_of_double (v a) = \<lfloor>v a\<rfloor>" "int_of_double (v (Suc a)) = \<lfloor>v (Suc a)\<rfloor>"
      "int_of_double (v b) = \<lfloor>v b\<rfloor>" "int_of_double (v (Suc b)) = \<lfloor>v (Suc b)\<rfloor>"
      using a b by (simp_all add: fl)
    ultimately show ?thesis using st [OF a] st [OF b] en [OF a] en [OF b] by simp
  qed
qed


lemmas chain_eval = example_segment_def run_length_def first_run_def run_pt_sum_def
  run_end_def run_start_def last_run_def run_of_def dole_pressure_def double_div_def
  int_of_double_def spec_pressure_def

text \<open>
  C3 (amended).  In a chain whose first start pressure and last end pressure
  are known, redistribution keeps the first start pressure, and it keeps the
  last end pressure provided the pressure-times of the last run do not sum to
  zero.
\<close>

theorem fill_missing_segment_pressures_boundaries:
  assumes "chain \<noteq> []"
    and "start (hd chain) \<noteq> 0"
    and "end_pr (last chain) \<noteq> 0"
    and "run_pt_sum (last_run chain) \<noteq> 0"
  shows "\<exists>ys. fill_missing_segment_pressures chain = Inr ys
           \<and> length ys = length chain
           \<and> start (hd ys) = start (hd chain)
           \<and> end_pr (last ys) = end_pr (last chain)"
proof -
  obtain ys where ys: "fill_missing_segment_pressures chain = Inr ys"
    and len: "length ys = length chain"
    using fill_total by blast
  from fill_first_start [OF assms(1,2) ys] fill_last_end [OF assms(1,3,4) ys] ys len
  show ?thesis by blast
qed

theorem fill_missing_segment_pressures_boundaries_witness:
  "four_segment_chain \<noteq> []
   \<and> start (hd four_segment_chain) \<noteq> 0
   \<and> end_pr (last four_segment_chain) \<noteq> 0
   \<and> run_pt_sum (last_run four_segment_chain) \<noteq> 0
   \<and> (\<exists>ys. fill_missing_segment_pressures four_segment_chain = Inr ys
           \<and> length ys = 4 \<and> start (hd ys) = 100 \<and> end_pr (last ys) = 95)"
  using fill_missing_segment_pressures_boundaries [of four_segment_chain]
  by (simp add: four_segment_chain_def chain_eval)

text \<open>
  C3 as stated fails for a run without pressure-time: its known end pressure
  170 is replaced by the start pressure 200.
\<close>

theorem fill_missing_segment_pressures_boundaries_counterexample:
  "start (hd surface_chain) \<noteq> 0
   \<and> end_pr (last surface_chain) \<noteq> 0
   \<and> fill_missing_segment_pressures surface_chain = Inr [example_segment 200 200 0 10 0]
   \<and> end_pr (last [example_segment 200 200 0 10 0]) \<noteq> end_pr (last surface_chain)"
  by (simp add: surface_chain_def chain_eval)

text \<open>
  C4 (amended).  The first run of a chain is resolved as the specification's
  formula says, each value truncated towards zero to an integer: the end
  pressure of the \<open>k\<close>-th segment is the formula at the pressure-time
  accumulated through that segment, every end pressure is the start pressure
  of the next segment of the run, and a run without pressure-time is left at
  its start pressure.  The segments after the run are resolved by the same
  function, so the statement covers every run.
\<close>

theorem fill_missing_segment_pressures_run:
  assumes "chain \<noteq> []"
  shows "\<exists>dn others.
           fill_missing_segment_pressures chain = Inr (dn @ others)
         \<and> length dn = run_length chain
         \<and> fill_missing_segment_pressures (drop (run_length chain) chain) = Inr others
         \<and> (\<forall>k<run_length chain.
              end_pr (dn ! k) = int_of_double (spec_pressure (run_start chain) (run_end chain)
                  (run_pt_sum (first_run chain)) (run_pt_sum (take (Suc k) chain)))
            \<and> start (dn ! k) = (if k = 0 then run_start chain else end_pr (dn ! (k - 1))))"
proof -
  from assms obtain list rest where chain: "chain = list # rest" by (cases chain) auto
  from fill_run_Cons [of list rest] show ?thesis unfolding chain by blast
qed

theorem fill_missing_segment_pressures_run_witness:
  "two_run_chain \<noteq> []
   \<and> run_length two_run_chain = 2
   \<and> run_start two_run_chain = 200 \<and> run_end two_run_chain = 170
   \<and> run_pt_sum (first_run two_run_chain) = 7
   \<and> run_pt_sum (take (Suc 0) two_run_chain) = 1
   \<and> run_pt_sum (take (Suc (Suc 0)) two_run_chain) = 7
   \<and> int_of_double (spec_pressure 200 170 7 1) = 195
   \<and> int_of_double (spec_pressure 200 170 7 7) = 170
   \<and> (\<exists>dn others.
           fill_missing_segment_pressures two_run_chain = Inr (dn @ others)
         \<and> length dn = 2
         \<and> fill_missing_segment_pressures (drop 2 two_run_chain) = Inr others
         \<and> end_pr (dn ! 0) = 195 \<and> start (dn ! 0) = 200
         \<and> end_pr (dn ! Suc 0) = 170 \<and> start (dn ! Suc 0) = 195)"
proof -
  have ne: "two_run_chain \<noteq> []" by (simp add: two_run_chain_def)
  have ev: "run_length two_run_chain = 2"
    "run_start two_run_chain = 200" "run_end two_run_chain = 170"
    "run_pt_sum (first_run two_run_chain) = 7"
    "run_pt_sum (take (Suc 0) two_run_chain) = 1"
    "run_pt_sum (take (Suc (Suc 0)) two_run_chain) = 7"
    "int_of_double (spec_pressure 200 170 7 1) = 195"
    "int_of_double (spec_pressure 200 170 7 7) = 170"
    by (simp_all add: two_run_chain_def chain_eval)
  from fill_missing_segment_pressures_run [OF ne] obtain dn others where
    r: "fill_missing_segment_pressures two_run_chain = Inr (dn @ others)"
      "length dn = run_length two_run_chain"
      "fill_missing_segment_pressures (drop (run_length two_run_chain) two_run_chain) = Inr others"
    and el: "\<And>k. k < run_length two_run_chain \<Longrightarrow>
              end_pr (dn ! k) = int_of_double (spec_pressure (run_start two_run_chain) (run_end two_run_chain)
                  (run_pt_sum (first_run two_run_chain)) (run_pt_sum (take (Suc k) two_run_chain)))
            \<and> start (dn ! k) = (if k = 0 then run_start two_run_chain else end_pr (dn ! (k - 1)))"
    by blast
  from el [of 0] el [of "Suc 0"] have "end_pr (dn ! 0) = 195 \<and> start (dn ! 0) = 200
         \<and> end_pr (dn ! Suc 0) = 170 \<and> start (dn ! Suc 0) = 195"
    by (simp add: ev)
  moreover from r have "fill_missing_segment_pressures two_run_chain = Inr (dn @ others)
     \<and> length dn = 2 \<and> fill_missing_segment_pressures (drop 2 two_run_chain) = Inr others"
    by (simp add: ev)
  ultimately show ?thesis using ne ev by blast
qed

text \<open>
  C4 as stated fails where the formula has no integer value: the first
  segment of the chain ends at 195, the formula gives \<open>200 - 30 / 7\<close>.
\<close>

theorem fill_missing_segment_pressures_run_counterexample:
  "fill_missing_segment_pressures two_run_chain
     = Inr [example_segment 200 195 0 10 1, example_segment 195 170 10 20 6,
            example_segment 0 0 20 30 5, example_segment 0 0 30 40 6]
   \<and> real_of_int (end_pr (example_segment 200 195 0 10 1))
       \<noteq> spec_pressure (run_start two_run_chain) (run_end two_run_chain)
            (run_pt_sum (first_run two_run_chain)) (run_pt_sum (take 1 two_run_chain))"
  by (simp add: two_run_chain_def chain_eval)

text \<open>
  C6 (amended).  In a run from a start pressure down to a non-negative end
  pressure, with non-negative pressure-times, a segment with strictly greater
  pressure-time has a pressure drop at least that of the other segment minus
  one unit.
\<close>

theorem fill_missing_segment_pressures_drops:
  assumes "chain \<noteq> []"
    and "run_end chain < run_start chain"
    and "0 \<le> run_end chain"
    and "\<forall>segment\<in>set (first_run chain). 0 \<le> seg_pressure_time segment"
    and "fill_missing_segment_pressures chain = Inr ys"
    and "a < run_length chain" and "b < run_length chain"
    and "seg_pressure_time (chain ! b) < seg_pressure_time (chain ! a)"
  shows "start (ys ! b) - end_pr (ys ! b) \<le> start (ys ! a) - end_pr (ys ! a) + 1"
  using assms by (rule fill_drops)

theorem fill_missing_segment_pressures_drops_witness:
  "four_segment_chain \<noteq> []
   \<and> run_end four_segment_chain < run_start four_segment_chain
   \<and> 0 \<le> run_end four_segment_chain
   \<and> map seg_pressure_time (first_run four_segment_chain) = [19, 22, 24, 35]
   \<and> fill_missing_segment_pressures four_segment_chain
       = Inr [example_segment 100 99 0 10 19, example_segment 99 97 10 20 22,
              example_segment 97 96 20 30 24, example_segment 96 95 30 40 35]
   \<and> 2 < run_length four_segment_chain \<and> 1 < run_length four_segment_chain
   \<and> seg_pressure_time (four_segment_chain ! 1) < seg_pressure_time (four_segment_chain ! 2)
   \<and> (99 - 97 :: int) \<le> 97 - 96 + 1"
proof -
  have ev: "four_segment_chain \<noteq> []"
    "run_end four_segment_chain < run_start four_segment_chain"
    "0 \<le> run_end four_segment_chain"
    "\<forall>segment\<in>set (first_run four_segment_chain). 0 \<le> seg_pressure_time segment"
    "fill_missing_segment_pressures four_segment_chain
       = Inr [example_segment 100 99 0 10 19, example_segment 99 97 10 20 22,
              example_segment 97 96 20 30 24, example_segment 96 95 30 40 35]"
    "2 < run_length four_segment_chain" "1 < run_length four_segment_chain"
    "seg_pressure_time (four_segment_chain ! 1) < seg_pressure_time (four_segment_chain ! 2)"
    by (simp_all add: four_segment_chain_def chain_eval)
  have pts: "map seg_pressure_time (first_run four_segment_chain) = [19, 22, 24, 35]"
    by (simp add: four_segment_chain_def chain_eval)
  from fill_missing_segment_pressures_drops [OF ev]
  have "(99 - 97 :: int) \<le> 97 - 96 + 1" by (simp add: example_segment_def)
  with ev pts show ?thesis by blast
qed

text \<open>
  C6 as stated fails by one unit of truncation: the segment with
  pressure-time 24 drops by 1, the one with pressure-time 22 by 2.
\<close>

theorem fill_missing_segment_pressures_drops_counterexample:
  "fill_missing_segment_pressures four_segment_chain
     = Inr [example_segment 100 99 0 10 19, example_segment 99 97 10 20 22,
            example_segment 97 96 20 30 24, example_segment 96 95 30 40 35]
   \<and> run_length four_segment_chain = 4
   \<and> run_end four_segment_chain < run_start four_segment_chain
   \<and> seg_pressure_time (four_segment_chain ! 1) < seg_pressure_time (four_segment_chain ! 2)
   \<and> \<not> (start (example_segment 99 97 10 20 22) - end_pr (example_segment 99 97 10 20 22)
          \<le> start (example_segment 97 96 20 30 24) - end_pr (example_segment 97 96 20 30 24))"
  by (simp add: four_segment_chain_def chain_eval)

subsection \<open>The gap filler leaves the shape of the chains alone\<close>

lemma dole_out_shape:
  "dole_out s e S pt run = Inr ys \<Longrightarrow>
     map t_end ys = map t_end run \<and> map seg_pressure_time ys = map seg_pressure_time run"
  by (induction s e S pt run arbitrary: ys rule: dole_out.induct)
     (auto simp: dole_pressure_eq split: sum.splits)

lemma fill_shape:
  "fill_missing_segment_pressures chain = Inr ys \<Longrightarrow>
     map t_end ys = map t_end chain \<and> map seg_pressure_time ys = map seg_pressure_time chain"
proof (induction "length chain" arbitrary: chain ys rule: less_induct)
  case less
  show ?case
  proof (cases chain)
    case Nil
    with less.prems show ?thesis by simp
  next
    case (Cons list rest)
    define n where "n = run_length (list # rest) - 1"
    have pos: "0 < run_length (list # rest)" by (rule run_length_pos) simp
    have le: "run_length (list # rest) \<le> Suc (length rest)"
      using run_length_le [of "list # rest"] by simp
    from pos le have n1: "n \<le> length rest" by (simp add: n_def)
    let ?run = "run_of (run_start (list # rest)) (run_end (list # rest)) n list rest"
    from less.prems obtain dn others where
      dn: "dole_out (run_start (list # rest)) (run_end (list # rest))
             (run_pt_sum (first_run (list # rest))) 0 ?run = Inr dn"
      and others: "fill_missing_segment_pressures (drop n rest) = Inr others"
      and ys: "ys = dn @ others"
      unfolding Cons fill_Cons [OF n_def] by (auto split: sum.splits)
    have "length (drop n rest) < length chain" using Cons by simp
    from less.hyps [OF this others]
    have o: "map t_end others = map t_end (drop n rest)"
      "map seg_pressure_time others = map seg_pressure_time (drop n rest)" by simp_all
    from dole_out_shape [OF dn]
    have d: "map t_end dn = map t_end (take (Suc n) (list # rest))"
      "map seg_pressure_time dn = map seg_pressure_time (take (Suc n) (list # rest))"
      by (simp_all only: run_of_fields)
    have "take (Suc n) (list # rest) @ drop n rest = chain"
      unfolding Cons using append_take_drop_id [of "Suc n" "list # rest"] by simp
    then have "map t_end chain = map t_end (take (Suc n) (list # rest)) @ map t_end (drop n rest)"
      "map seg_pressure_time chain = map seg_pressure_time (take (Suc n) (list # rest))
          @ map seg_pressure_time (drop n rest)"
      by (metis map_append)+
    with o d ys show ?thesis by simp
  qed
qed

lemma find_segment_shape:
  assumes "map t_end ys = map t_end xs" "map seg_pressure_time ys = map seg_pressure_time xs"
  shows "map seg_pressure_time (find_segment ys s) = map seg_pressure_time (find_segment xs s)"
proof -
  have len: "length ys = length xs" using assms(1) by (rule map_eq_imp_length_eq)
  have tw: "length (takeWhile (\<lambda>segment. t_end segment < s) zs)
            = length (takeWhile (\<lambda>t. t < s) (map t_end zs))" for zs :: "pr_track list"
    by (simp add: takeWhile_map comp_def)
  have "find_segment zs s = drop (length (takeWhile (\<lambda>t. t < s) (map t_end zs))) zs"
    for zs :: "pr_track list"
    unfolding find_segment_def tw [symmetric] by (rule dropWhile_eq_drop)
  then show ?thesis using assms by (simp add: drop_map [symmetric])
qed

lemma carries_forward_shape:
  assumes "map t_end ys = map t_end xs" "map seg_pressure_time ys = map seg_pressure_time xs"
  shows "carries_forward ys s = carries_forward xs s"
proof -
  from find_segment_shape [OF assms, of s]
  show ?thesis unfolding carries_forward_def by (auto split: list.splits)
qed

lemma init_cur_pr_shape:
  "\<exists>track_pr' cur_pr'. init_cur_pr cyls track_pr cur_pr = Inr (track_pr', cur_pr')
     \<and> (\<forall>cyl. map t_end (track_pr' cyl) = map t_end (track_pr cyl)
            \<and> map seg_pressure_time (track_pr' cyl) = map seg_pressure_time (track_pr cyl))"
proof (induction cyls arbitrary: track_pr cur_pr)
  case Nil
  show ?case by simp
next
  case (Cons cyl cyls)
  show ?case
  proof (cases "track_pr cyl = []")
    case True
    then have eq: "init_cur_pr (cyl # cyls) track_pr cur_pr
                   = init_cur_pr cyls track_pr (cur_pr(cyl := - 1))" by simp
    show ?thesis unfolding eq by (rule Cons.IH)
  next
    case False
    obtain ys where ys: "fill_missing_segment_pressures (track_pr cyl) = Inr ys"
      and len: "length ys = length (track_pr cyl)" using fill_total by blast
    with False obtain first others where f: "ys = first # others" by (cases ys) auto
    from fill_shape [OF ys] have sh: "map t_end ys = map t_end (track_pr cyl)"
      "map seg_pressure_time ys = map seg_pressure_time (track_pr cyl)" by simp_all
    from Cons.IH [of "track_pr(cyl := first # others)" "cur_pr(cyl := start first)"]
    obtain track_pr' cur_pr' where
      r: "init_cur_pr cyls (track_pr(cyl := first # others)) (cur_pr(cyl := start first))
            = Inr (track_pr', cur_pr')"
      and s: "\<And>c. map t_end (track_pr' c) = map t_end ((track_pr(cyl := first # others)) c)
            \<and> map seg_pressure_time (track_pr' c)
                = map seg_pressure_time ((track_pr(cyl := first # others)) c)"
      by blast
    have "\<forall>c. map t_end (track_pr' c) = map t_end (track_pr c)
            \<and> map seg_pressure_time (track_pr' c) = map seg_pressure_time (track_pr c)"
    proof
      fix c show "map t_end (track_pr' c) = map t_end (track_pr c)
            \<and> map seg_pressure_time (track_pr' c) = map seg_pressure_time (track_pr c)"
        using s [of c] sh f by (cases "c = cyl") simp_all
    qed
    moreover have "init_cur_pr (cyl # cyls) track_pr cur_pr = Inr (track_pr', cur_pr')"
      using False ys f r by simp
    ultimately show ?thesis by blast
  qed
qed


lemmas filler_defs = filler_cylinder_def filler_pressure_def filler_interpolated_def
  save_pressure_def save_interpolated_def SENSOR_PRESSURE_def DILUENT_PRESSURE_def

lemma tank_pressure_step_frame:
  assumes "tank_pressure_step M D track_pr flag i (pi_entry, cur_pr) = Inr (pi_entry', cur_pr')"
  shows "length pi_entry' = length pi_entry \<and> (\<forall>j. j \<noteq> i \<longrightarrow> pi_entry' ! j = pi_entry ! j)"
  using assms
  by (auto simp: tank_pressure_step_def Let_def double_div_def split: if_splits list.splits)

lemma tank_pressure_step_entry:
  assumes "tank_pressure_step M D track_pr flag i (pi_entry, cur_pr) = Inr (pi_entry', cur_pr')"
    and "i < length pi_entry"
  shows "filled_entry track_pr D flag (pi_entry ! i) (pi_entry' ! i)"
proof (cases "filler_pressure flag (pi_entry ! i) = 0")
  case False
  with assms show ?thesis
    by (auto simp: tank_pressure_step_def Let_def filled_entry_def filler_pressure_def
        split: if_splits)
next
  case True
  show ?thesis
  proof (cases "carries_forward (track_pr (filler_cylinder D flag (pi_entry ! i))) (sec (pi_entry ! i))")
    case cf: True
    with True assms have "pi_entry' ! i = save_pressure flag (pi_entry ! i)
        (cur_pr (filler_cylinder D flag (pi_entry ! i)))"
      by (auto simp: tank_pressure_step_def Let_def carries_forward_def filler_pressure_def
          filler_cylinder_def split: if_splits list.splits)
    then have "pi_entry' ! i = save_pressure flag (pi_entry ! i) (filler_pressure flag (pi_entry' ! i))"
      by (simp add: filler_defs)
    with True cf show ?thesis by (simp add: filled_entry_def)
  next
    case cf: False
    with True assms have "\<exists>v. pi_entry' ! i = save_interpolated flag (pi_entry ! i) v"
      by (auto simp: tank_pressure_step_def Let_def carries_forward_def filler_pressure_def
          filler_cylinder_def double_div_def split: if_splits list.splits)
    then have "pi_entry' ! i = save_interpolated flag (pi_entry ! i)
         (filler_interpolated flag (pi_entry' ! i))"
      by (auto simp: filler_defs)
    with True cf show ?thesis by (simp add: filled_entry_def)
  qed
qed

lemma tank_pressure_step_no_division_by_zero:
  "tank_pressure_step M D track_pr flag i st \<noteq> Inl Division_By_Zero"
  by (cases st)
     (auto simp: tank_pressure_step_def Let_def double_div_def split: if_splits list.splits)

lemma tank_pressure_step_total:
  assumes "0 \<le> filler_cylinder D flag (pi_entry ! i)"
    and "filler_cylinder D flag (pi_entry ! i) < int M"
  shows "\<exists>st'. tank_pressure_step M D track_pr flag i (pi_entry, cur_pr) = Inr st'"
  using assms
  by (auto simp: tank_pressure_step_def Let_def double_div_def filler_cylinder_def
      split: if_splits list.splits)

lemma filled_entry_cylinderindex:
  "filled_entry track_pr D flag entry entry' \<Longrightarrow> cylinderindex entry' = cylinderindex entry"
  by (auto simp: filled_entry_def save_pressure_def save_interpolated_def split: if_splits)
     (metis plot_data.select_convs plot_data.surjective plot_data.update_convs)+

subsection \<open>The loop over the entries\<close>

lemma tank_pressure_loop_frame:
  assumes "distinct idxs" "\<forall>i\<in>set idxs. i < length pi_entry"
    and "tank_pressure_loop M D track_pr flag idxs (pi_entry, cur_pr) = Inr (pi_entry', cur_pr')"
  shows "length pi_entry' = length pi_entry
       \<and> (\<forall>j. j \<notin> set idxs \<longrightarrow> pi_entry' ! j = pi_entry ! j)
       \<and> (\<forall>j\<in>set idxs. filled_entry track_pr D flag (pi_entry ! j) (pi_entry' ! j))"
  using assms
proof (induction idxs arbitrary: pi_entry cur_pr)
  case Nil
  then show ?case by simp
next
  case (Cons i idxs)
  from Cons.prems(3) obtain pi1 cur1 where
    step: "tank_pressure_step M D track_pr flag i (pi_entry, cur_pr) = Inr (pi1, cur1)"
    and rest: "tank_pressure_loop M D track_pr flag idxs (pi1, cur1) = Inr (pi_entry', cur_pr')"
    by (auto split: sum.splits)
  from tank_pressure_step_frame [OF step]
  have len1: "length pi1 = length pi_entry" and same1: "\<And>j. j \<noteq> i \<Longrightarrow> pi1 ! j = pi_entry ! j"
    by simp_all
  from Cons.prems(2) have i: "i < length pi_entry" by simp
  note e1 = tank_pressure_step_entry [OF step i]
  from Cons.prems(1) have d: "distinct idxs" and ni: "i \<notin> set idxs" by simp_all
  from Cons.prems(2) len1 have b: "\<forall>k\<in>set idxs. k < length pi1" by simp
  from Cons.IH [OF d b rest]
  have len: "length pi_entry' = length pi1"
    and same: "\<And>j. j \<notin> set idxs \<Longrightarrow> pi_entry' ! j = pi1 ! j"
    and fe: "\<And>j. j \<in> set idxs \<Longrightarrow> filled_entry track_pr D flag (pi1 ! j) (pi_entry' ! j)"
    by simp_all
  have "filled_entry track_pr D flag (pi_entry ! j) (pi_entry' ! j)" if "j \<in> set (i # idxs)" for j
  proof (cases "j = i")
    case True
    with e1 same [OF ni] show ?thesis by simp
  next
    case False
    with that have "j \<in> set idxs" by simp
    from fe [OF this] same1 [OF False] show ?thesis by simp
  qed
  moreover have "pi_entry' ! j = pi_entry ! j" if "j \<notin> set (i # idxs)" for j
    using that same [of j] same1 [of j] by simp
  ultimately show ?case using len len1 by simp
qed


lemma tank_pressure_loop_no_division_by_zero:
  "tank_pressure_loop M D track_pr flag idxs st \<noteq> Inl Division_By_Zero"
  by (induction idxs arbitrary: st)
     (auto simp: tank_pressure_step_no_division_by_zero split: sum.splits)


lemma tank_pressure_step_cylinderindex:
  assumes "tank_pressure_step M D track_pr flag i (pi_entry, cur_pr) = Inr (pi_entry', cur_pr')"
  shows "map cylinderindex pi_entry' = map cylinderindex pi_entry"
proof (rule nth_equalityI)
  from tank_pressure_step_frame [OF assms]
  have len: "length pi_entry' = length pi_entry"
    and same: "\<And>j. j \<noteq> i \<Longrightarrow> pi_entry' ! j = pi_entry ! j" by simp_all
  show "length (map cylinderindex pi_entry') = length (map cylinderindex pi_entry)"
    using len by simp
  fix j assume "j < length (map cylinderindex pi_entry')"
  then have j: "j < length pi_entry" using len by simp
  show "map cylinderindex pi_entry' ! j = map cylinderindex pi_entry ! j"
  proof (cases "j = i")
    case True
    with j filled_entry_cylinderindex [OF tank_pressure_step_entry [OF assms]] len
    show ?thesis by simp
  next
    case False
    with same j len show ?thesis by simp
  qed
qed


lemma tank_pressure_loop_total:
  assumes "\<forall>i\<in>set idxs. i < length pi_entry"
    and "\<forall>c\<in>set (map cylinderindex pi_entry).
           0 \<le> (if flag \<noteq> 0 then D else c) \<and> (if flag \<noteq> 0 then D else c) < int M"
  shows "\<exists>st'. tank_pressure_loop M D track_pr flag idxs (pi_entry, cur_pr) = Inr st'"
  using assms
proof (induction idxs arbitrary: pi_entry cur_pr)
  case Nil
  show ?case by simp
next
  case (Cons i idxs)
  from Cons.prems(1) have i: "i < length pi_entry" by simp
  then have "cylinderindex (pi_entry ! i) \<in> set (map cylinderindex pi_entry)" by simp
  with Cons.prems(2) have "0 \<le> filler_cylinder D flag (pi_entry ! i)"
    "filler_cylinder D flag (pi_entry ! i) < int M"
    unfolding filler_cylinder_def by blast+
  from tank_pressure_step_total [OF this] obtain pi1 cur1 where
    step: "tank_pressure_step M D track_pr flag i (pi_entry, cur_pr) = Inr (pi1, cur1)"
    by (metis surj_pair)
  from tank_pressure_step_frame [OF step] have len: "length pi1 = length pi_entry" by simp
  note cyl = tank_pressure_step_cylinderindex [OF step]
  from Cons.prems(1) len have a: "\<forall>k\<in>set idxs. k < length pi1" by simp
  from Cons.prems(2) have b: "\<forall>c\<in>set (map cylinderindex pi1).
           0 \<le> (if flag \<noteq> 0 then D else c) \<and> (if flag \<noteq> 0 then D else c) < int M"
    unfolding cyl .
  from Cons.IH [OF a b] obtain st' where
    "tank_pressure_loop M D track_pr flag idxs (pi1, cur1) = Inr st'" by blast
  with step show ?case by simp
qed


lemma fill_missing_tank_pressures_frame:
  assumes "fill_missing_tank_pressures M D pi_entry track_pr flag = Inr out"
  shows "length out = length pi_entry
       \<and> (if pi_entry = [] then out = [] else out ! 0 = pi_entry ! 0)
       \<and> (\<forall>i. 0 < i \<and> i < length pi_entry
              \<longrightarrow> filled_entry track_pr D flag (pi_entry ! i) (out ! i))"
proof -
  obtain track_pr' cur_pr' where
    init: "init_cur_pr (map int [0..<M]) track_pr (\<lambda>cyl. 0) = Inr (track_pr', cur_pr')"
    and shape: "\<And>cyl. map t_end (track_pr' cyl) = map t_end (track_pr cyl)
            \<and> map seg_pressure_time (track_pr' cyl) = map seg_pressure_time (track_pr cyl)"
    using init_cur_pr_shape by blast
  from assms init obtain cur where
    loop: "tank_pressure_loop M D track_pr' flag [1..<length pi_entry] (pi_entry, cur_pr')
             = Inr (out, cur)"
    by (auto simp: fill_missing_tank_pressures_def split: sum.splits prod.splits)
  have "distinct [1..<length pi_entry]" "\<forall>i\<in>set [1..<length pi_entry]. i < length pi_entry"
    by simp_all
  from tank_pressure_loop_frame [OF this loop]
  have len: "length out = length pi_entry"
    and same: "\<And>j. j \<notin> set [1..<length pi_entry] \<Longrightarrow> out ! j = pi_entry ! j"
    and fe: "\<And>j. j \<in> set [1..<length pi_entry]
               \<Longrightarrow> filled_entry track_pr' D flag (pi_entry ! j) (out ! j)"
    by simp_all
  have cfs: "carries_forward (track_pr' c) s = carries_forward (track_pr c) s" for c s
    using shape [of c] by (intro carries_forward_shape) simp_all
  have cf: "filled_entry track_pr' D flag e e' = filled_entry track_pr D flag e e'" for e e'
    by (simp add: filled_entry_def cfs)
  have "filled_entry track_pr D flag (pi_entry ! i) (out ! i)"
    if "0 < i \<and> i < length pi_entry" for i
    using fe [of i] that by (simp add: cf)
  moreover have "out ! 0 = pi_entry ! 0" using same [of 0] by simp
  moreover have "out = []" if "pi_entry = []" using that len by simp
  ultimately show ?thesis using len by simp
qed


lemma fill_missing_tank_pressures_no_division_by_zero:
  "fill_missing_tank_pressures M D pi_entry track_pr flag \<noteq> Inl Division_By_Zero"
proof -
  obtain track_pr' cur_pr' where
    init: "init_cur_pr (map int [0..<M]) track_pr (\<lambda>cyl. 0) = Inr (track_pr', cur_pr')"
    using init_cur_pr_shape by blast
  show ?thesis
    using tank_pressure_loop_no_division_by_zero
      [of M D track_pr' flag "[1..<length pi_entry]" "(pi_entry, cur_pr')"]
    by (auto simp: fill_missing_tank_pressures_def init split: sum.splits prod.splits)
qed


lemma fill_missing_tank_pressures_total:
  assumes "\<forall>c\<in>set (map cylinderindex pi_entry).
           0 \<le> (if flag \<noteq> 0 then D else c) \<and> (if flag \<noteq> 0 then D else c) < int M"
  shows "\<exists>out. fill_missing_tank_pressures M D pi_entry track_pr flag = Inr out"
proof -
  obtain track_pr' cur_pr' where
    init: "init_cur_pr (map int [0..<M]) track_pr (\<lambda>cyl. 0) = Inr (track_pr', cur_pr')"
    using init_cur_pr_shape by blast
  have "\<forall>i\<in>set [1..<length pi_entry]. i < length pi_entry" by simp
  from tank_pressure_loop_total [OF this assms] obtain st' where
    "tank_pressure_loop M D track_pr' flag [1..<length pi_entry] (pi_entry, cur_pr') = Inr st'"
    by blast
  then show ?thesis
    by (cases st') (simp add: fill_missing_tank_pressures_def init)
qed

subsection \<open>The segment builder\<close>

lemma without_pressure_time_length:
  "without_pressure_time xs = without_pressure_time ys \<Longrightarrow> length xs = length ys"
  unfolding without_pressure_time_def by (rule map_eq_imp_length_eq)

lemma without_pressure_time_nth:
  assumes "without_pressure_time xs = without_pressure_time ys" "i < length ys"
  shows "(xs ! i)\<lparr>pressure_time := 0\<rparr> = (ys ! i)\<lparr>pressure_time := 0\<rparr>"
proof -
  have i: "i < length xs" using without_pressure_time_length [OF assms(1)] assms(2) by simp
  have "without_pressure_time xs ! i = without_pressure_time ys ! i"
    using assms(1) by simp
  then show ?thesis
    unfolding without_pressure_time_def using i assms(2) by simp
qed

lemma without_pressure_time_fields:
  assumes "without_pressure_time xs = without_pressure_time ys" "i < length ys"
  shows "cylinderindex (xs ! i) = cylinderindex (ys ! i)"
    and "SENSOR_PRESSURE (xs ! i) = SENSOR_PRESSURE (ys ! i)"
    and "pressure_INTERPOLATED_PR (xs ! i) = pressure_INTERPOLATED_PR (ys ! i)"
    and "diluentpressure_SENSOR_PR (xs ! i) = diluentpressure_SENSOR_PR (ys ! i)"
    and "diluentpressure_INTERPOLATED_PR (xs ! i) = diluentpressure_INTERPOLATED_PR (ys ! i)"
    and "sec (xs ! i) = sec (ys ! i)"
    and "plot_data.depth (xs ! i) = plot_data.depth (ys ! i)"
proof -
  note e = without_pressure_time_nth [OF assms]
  show "cylinderindex (xs ! i) = cylinderindex (ys ! i)"
    using arg_cong [OF e, of cylinderindex] by simp
  show "SENSOR_PRESSURE (xs ! i) = SENSOR_PRESSURE (ys ! i)"
    using arg_cong [OF e, of SENSOR_PRESSURE] by (simp add: SENSOR_PRESSURE_def)
  show "pressure_INTERPOLATED_PR (xs ! i) = pressure_INTERPOLATED_PR (ys ! i)"
    using arg_cong [OF e, of pressure_INTERPOLATED_PR] by simp
  show "diluentpressure_SENSOR_PR (xs ! i) = diluentpressure_SENSOR_PR (ys ! i)"
    using arg_cong [OF e, of diluentpressure_SENSOR_PR] by simp
  show "diluentpressure_INTERPOLATED_PR (xs ! i) = diluentpressure_INTERPOLATED_PR (ys ! i)"
    using arg_cong [OF e, of diluentpressure_INTERPOLATED_PR] by simp
  show "sec (xs ! i) = sec (ys ! i)"
    using arg_cong [OF e, of sec] by simp
  show "plot_data.depth (xs ! i) = plot_data.depth (ys ! i)"
    using arg_cong [OF e, of plot_data.depth] by simp
qed

lemma without_pressure_time_cylinderindex:
  assumes "without_pressure_time xs = without_pressure_time ys"
  shows "map cylinderindex xs = map cylinderindex ys"
proof -
  have "map cylinderindex zs = map cylinderindex (without_pressure_time zs)" for zs
    by (simp add: without_pressure_time_def comp_def)
  with assms show ?thesis by metis
qed

lemma integrate_step_fields:
  "without_pressure_time (ps_entry (integrate_step ST d2m i s)) = without_pressure_time (ps_entry s)"
  "ps_cylinderindex (integrate_step ST d2m i s) = ps_cylinderindex s"
  "ps_current (integrate_step ST d2m i s) = ps_current s"
  "ps_missing_pr (integrate_step ST d2m i s) = ps_missing_pr s"
  by (simp_all add: integrate_step_def Let_def without_pressure_time_def map_update_same
      split: option.splits)

lemma populate_step_no_division_by_zero:
  "populate_step M ST d2m i s \<noteq> Inl Division_By_Zero"
  by (simp add: populate_step_def Let_def split: option.splits)

lemma populate_step_entries:
  assumes "populate_step M ST d2m i s = Inr s'"
  shows "without_pressure_time (ps_entry s') = without_pressure_time (ps_entry s)"
proof -
  from assms have "ps_entry s' = ps_entry (integrate_step ST d2m i s)"
    by (auto simp: populate_step_def Let_def split: if_splits option.splits)
  then show ?thesis by (simp add: integrate_step_fields)
qed

lemma populate_loop_entries:
  "populate_loop M ST d2m idxs s = Inr s' \<Longrightarrow>
     without_pressure_time (ps_entry s') = without_pressure_time (ps_entry s)"
proof (induction idxs arbitrary: s)
  case Nil
  then show ?case by simp
next
  case (Cons i idxs)
  then obtain s1 where a: "populate_step M ST d2m i s = Inr s1"
    and b: "populate_loop M ST d2m idxs s1 = Inr s'" by (auto split: sum.splits)
  from Cons.IH [OF b] populate_step_entries [OF a] show ?case by simp
qed

lemma populate_loop_no_division_by_zero:
  "populate_loop M ST d2m idxs s \<noteq> Inl Division_By_Zero"
  by (induction idxs arbitrary: s)
     (auto simp: populate_step_no_division_by_zero split: sum.splits)

lemma populate_step_inv:
  assumes inv: "without_pressure_time (ps_entry s) = without_pressure_time pi_entry"
    and cur: "if k = 0 then ps_current s = None \<and> ps_cylinderindex s = - 1
              else ps_current s \<noteq> None \<and> ps_cylinderindex s = cylinderindex (pi_entry ! (k - 1))"
    and k: "k < length pi_entry"
    and rng: "0 \<le> cylinderindex (pi_entry ! k)" "cylinderindex (pi_entry ! k) < int M"
  shows "\<exists>s'. populate_step M ST d2m k s = Inr s'
     \<and> without_pressure_time (ps_entry s') = without_pressure_time pi_entry
     \<and> ps_current s' \<noteq> None \<and> ps_cylinderindex s' = cylinderindex (pi_entry ! k)
     \<and> (ps_missing_pr s' \<longleftrightarrow> ps_missing_pr s
          \<or> (0 < k \<and> SENSOR_PRESSURE (pi_entry ! k) = 0
              \<and> cylinderindex (pi_entry ! k) = cylinderindex (pi_entry ! (k - 1))))"
proof -
  define s1 where "s1 = integrate_step ST d2m k s"
  have inv1: "without_pressure_time (ps_entry s1) = without_pressure_time pi_entry"
    unfolding s1_def using inv by (simp add: integrate_step_fields)
  have f1: "ps_cylinderindex s1 = ps_cylinderindex s" "ps_current s1 = ps_current s"
    "ps_missing_pr s1 = ps_missing_pr s"
    unfolding s1_def by (simp_all add: integrate_step_fields)
  have c: "cylinderindex (ps_entry s1 ! k) = cylinderindex (pi_entry ! k)"
    using without_pressure_time_fields(1) [OF inv1 k] .
  have p: "SENSOR_PRESSURE (ps_entry s ! k) = SENSOR_PRESSURE (pi_entry ! k)"
    using without_pressure_time_fields(2) [OF inv k] .
  have step: "populate_step M ST d2m k s =
     (let pressure = SENSOR_PRESSURE (pi_entry ! k); entry = ps_entry s1 ! k
      in if cylinderindex (pi_entry ! k) \<noteq> ps_cylinderindex s
         then Inr (s1\<lparr>ps_cylinderindex := cylinderindex (pi_entry ! k),
                      ps_current := Some (cylinderindex (pi_entry ! k)),
                      ps_track_pr := (ps_track_pr s1)(cylinderindex (pi_entry ! k) :=
                         list_add (ps_track_pr s1 (cylinderindex (pi_entry ! k)))
                           (pr_track_alloc pressure (sec entry)))\<rparr>)
         else if pressure = 0 then Inr (s1\<lparr>ps_missing_pr := True\<rparr>)
         else (case ps_current s of
                 None \<Rightarrow> Inl Null_Dereference
               | Some c \<Rightarrow>
                   (let s2 = s1\<lparr>ps_track_pr := (ps_track_pr s1)(c := update_current
                                 (\<lambda>current. current\<lparr>end_pr := pressure\<rparr>) (ps_track_pr s1 c))\<rparr>
                    in if SENSOR_PRESSURE (ps_entry s1 ! (k - 1)) \<noteq> 0 then Inr s2
                       else Inr (s2\<lparr>ps_current := Some (ps_cylinderindex s),
                                   ps_track_pr := (ps_track_pr s2)(ps_cylinderindex s :=
                                      list_add (ps_track_pr s2 (ps_cylinderindex s))
                                        (pr_track_alloc pressure (sec entry)))\<rparr>))))"
    unfolding populate_step_def s1_def [symmetric]
    using rng by (auto simp: Let_def c p f1 split: option.splits)
  show ?thesis
  proof (cases "cylinderindex (pi_entry ! k) \<noteq> ps_cylinderindex s")
    case True
    with cur have "\<not> (0 < k \<and> cylinderindex (pi_entry ! k) = cylinderindex (pi_entry ! (k - 1)))"
      by (auto split: if_splits)
    with True show ?thesis unfolding step by (auto simp: Let_def inv1 f1)
  next
    case False
    with cur rng have k0: "0 < k" and same: "cylinderindex (pi_entry ! k) = cylinderindex (pi_entry ! (k - 1))"
      and cn: "ps_current s \<noteq> None"
      by (auto split: if_splits)
    from cn obtain c where cs: "ps_current s = Some c" by auto
    show ?thesis
      unfolding step using False k0 same cs
      by (auto simp: Let_def inv1 f1)
  qed
qed

lemma cylinders_in_range_nth:
  "cylinders_in_range M pi_entry \<Longrightarrow> k < length pi_entry \<Longrightarrow>
     0 \<le> cylinderindex (pi_entry ! k) \<and> cylinderindex (pi_entry ! k) < int M"
  by (simp add: cylinders_in_range_def list_all_length)

lemma populate_loop_inv:
  assumes "cylinders_in_range M pi_entry" "n \<le> length pi_entry"
  shows "k \<le> n \<Longrightarrow> without_pressure_time (ps_entry s) = without_pressure_time pi_entry \<Longrightarrow>
     (if k = 0 then ps_current s = None \<and> ps_cylinderindex s = - 1
      else ps_current s \<noteq> None \<and> ps_cylinderindex s = cylinderindex (pi_entry ! (k - 1))) \<Longrightarrow>
     \<exists>s'. populate_loop M ST d2m [k..<n] s = Inr s'
        \<and> without_pressure_time (ps_entry s') = without_pressure_time pi_entry
        \<and> (ps_missing_pr s' \<longleftrightarrow> ps_missing_pr s
             \<or> (\<exists>i. k \<le> i \<and> i < n \<and> 0 < i \<and> SENSOR_PRESSURE (pi_entry ! i) = 0
                  \<and> cylinderindex (pi_entry ! i) = cylinderindex (pi_entry ! (i - 1))))"
proof (induction "n - k" arbitrary: k s)
  case 0
  then have "k = n" by simp
  with 0 show ?case by auto
next
  case (Suc d)
  then have kn: "k < n" by simp
  with assms(2) have k: "k < length pi_entry" by simp
  note rng = cylinders_in_range_nth [OF assms(1) k]
  from populate_step_inv [OF Suc.prems(2,3) k, of M ST d2m] rng obtain s1 where
    step: "populate_step M ST d2m k s = Inr s1"
    and inv1: "without_pressure_time (ps_entry s1) = without_pressure_time pi_entry"
    and cur1: "ps_current s1 \<noteq> None" "ps_cylinderindex s1 = cylinderindex (pi_entry ! k)"
    and m1: "ps_missing_pr s1 \<longleftrightarrow> ps_missing_pr s
          \<or> (0 < k \<and> SENSOR_PRESSURE (pi_entry ! k) = 0
              \<and> cylinderindex (pi_entry ! k) = cylinderindex (pi_entry ! (k - 1)))"
    by blast
  have d: "d = n - Suc k" using Suc.hyps(2) by simp
  have c: "if Suc k = 0 then ps_current s1 = None \<and> ps_cylinderindex s1 = - 1
      else ps_current s1 \<noteq> None \<and> ps_cylinderindex s1 = cylinderindex (pi_entry ! (Suc k - 1))"
    using cur1 by simp
  from Suc.hyps(1) [OF d _ inv1 c] kn obtain s' where
    loop: "populate_loop M ST d2m [Suc k..<n] s1 = Inr s'"
    and inv': "without_pressure_time (ps_entry s') = without_pressure_time pi_entry"
    and m': "ps_missing_pr s' \<longleftrightarrow> ps_missing_pr s1
             \<or> (\<exists>i. Suc k \<le> i \<and> i < n \<and> 0 < i \<and> SENSOR_PRESSURE (pi_entry ! i) = 0
                  \<and> cylinderindex (pi_entry ! i) = cylinderindex (pi_entry ! (i - 1)))"
    by auto
  have "populate_loop M ST d2m [k..<n] s = Inr s'"
    using kn step loop by (simp add: upt_conv_Cons)
  moreover have "ps_missing_pr s' \<longleftrightarrow> ps_missing_pr s
             \<or> (\<exists>i. k \<le> i \<and> i < n \<and> 0 < i \<and> SENSOR_PRESSURE (pi_entry ! i) = 0
                  \<and> cylinderindex (pi_entry ! i) = cylinderindex (pi_entry ! (i - 1)))"
  proof -
    define Q where "Q i \<longleftrightarrow> 0 < i \<and> SENSOR_PRESSURE (pi_entry ! i) = 0
                  \<and> cylinderindex (pi_entry ! i) = cylinderindex (pi_entry ! (i - 1))" for i
    have "(\<exists>i. k \<le> i \<and> i < n \<and> Q i) \<longleftrightarrow> Q k \<or> (\<exists>i. Suc k \<le> i \<and> i < n \<and> Q i)"
    proof
      assume "\<exists>i. k \<le> i \<and> i < n \<and> Q i"
      then obtain i where i: "k \<le> i" "i < n" "Q i" by blast
      show "Q k \<or> (\<exists>i. Suc k \<le> i \<and> i < n \<and> Q i)"
      proof (cases "i = k")
        case True
        with i show ?thesis by simp
      next
        case False
        with i have "Suc k \<le> i" by simp
        with i show ?thesis by blast
      qed
    next
      assume "Q k \<or> (\<exists>i. Suc k \<le> i \<and> i < n \<and> Q i)"
      then show "\<exists>i. k \<le> i \<and> i < n \<and> Q i"
        using kn by (auto intro: exI [of _ k] dest: Suc_leD)
    qed
    then show ?thesis using m' m1 unfolding Q_def by blast
  qed
  ultimately show ?case using inv' by blast
qed

lemma has_missing_pr_iff:
  "has_missing_pr pi_entry \<longleftrightarrow>
     (\<exists>i. 0 < i \<and> i < length pi_entry \<and> SENSOR_PRESSURE (pi_entry ! i) = 0
        \<and> cylinderindex (pi_entry ! i) = cylinderindex (pi_entry ! (i - 1)))"
proof (induction pi_entry rule: has_missing_pr.induct)
  case 1
  show ?case by simp
next
  case (2 entry)
  show ?case by simp
next
  case (3 previous entry rest)
  show ?case
  proof
    assume "has_missing_pr (previous # entry # rest)"
    then consider "cylinderindex entry = cylinderindex previous \<and> SENSOR_PRESSURE entry = 0"
      | "has_missing_pr (entry # rest)" by auto
    then show "\<exists>i. 0 < i \<and> i < length (previous # entry # rest)
        \<and> SENSOR_PRESSURE ((previous # entry # rest) ! i) = 0
        \<and> cylinderindex ((previous # entry # rest) ! i)
            = cylinderindex ((previous # entry # rest) ! (i - 1))"
    proof cases
      case 1
      then show ?thesis by (intro exI [of _ 1]) simp
    next
      case 2
      with 3 obtain i where "0 < i" "i < length (entry # rest)"
        "SENSOR_PRESSURE ((entry # rest) ! i) = 0"
        "cylinderindex ((entry # rest) ! i) = cylinderindex ((entry # rest) ! (i - 1))"
        by auto
      then show ?thesis by (intro exI [of _ "Suc i"]) (cases i, simp_all)
    qed
  next
    assume "\<exists>i. 0 < i \<and> i < length (previous # entry # rest)
        \<and> SENSOR_PRESSURE ((previous # entry # rest) ! i) = 0
        \<and> cylinderindex ((previous # entry # rest) ! i)
            = cylinderindex ((previous # entry # rest) ! (i - 1))"
    then obtain i where i: "0 < i" "i < length (previous # entry # rest)"
        "SENSOR_PRESSURE ((previous # entry # rest) ! i) = 0"
        "cylinderindex ((previous # entry # rest) ! i)
            = cylinderindex ((previous # entry # rest) ! (i - 1))" by blast
    show "has_missing_pr (previous # entry # rest)"
    proof (cases "i = 1")
      case True
      with i show ?thesis by simp
    next
      case False
      with i obtain j where j: "i = Suc j" "0 < j" by (cases i) auto
      with i have "0 < j \<and> j < length (entry # rest) \<and> SENSOR_PRESSURE ((entry # rest) ! j) = 0
        \<and> cylinderindex ((entry # rest) ! j) = cylinderindex ((entry # rest) ! (j - 1))"
        by (cases j) simp_all
      with 3 have "has_missing_pr (entry # rest)" by blast
      then show ?thesis by simp
    qed
  qed
qed

lemma populate_loop_result:
  assumes "cylinders_in_range M pi_entry"
  shows "\<exists>s. populate_loop M ST d2m [0..<length pi_entry]
             \<lparr>ps_entry = pi_entry, ps_track_pr = (\<lambda>cyl. []), ps_cylinderindex = - 1,
              ps_current = None, ps_missing_pr = False\<rparr> = Inr s
     \<and> without_pressure_time (ps_entry s) = without_pressure_time pi_entry
     \<and> (ps_missing_pr s \<longleftrightarrow> has_missing_pr pi_entry)"
proof -
  let ?s0 = "\<lparr>ps_entry = pi_entry, ps_track_pr = (\<lambda>cyl. []), ps_cylinderindex = - 1,
              ps_current = None, ps_missing_pr = False\<rparr>"
  have "\<exists>s'. populate_loop M ST d2m [0..<length pi_entry] ?s0 = Inr s'
        \<and> without_pressure_time (ps_entry s') = without_pressure_time pi_entry
        \<and> (ps_missing_pr s' \<longleftrightarrow> ps_missing_pr ?s0
             \<or> (\<exists>i. 0 \<le> i \<and> i < length pi_entry \<and> 0 < i \<and> SENSOR_PRESSURE (pi_entry ! i) = 0
                  \<and> cylinderindex (pi_entry ! i) = cylinderindex (pi_entry ! (i - 1))))"
    by (rule populate_loop_inv [OF assms]) simp_all
  then show ?thesis unfolding has_missing_pr_iff by auto
qed

lemma populate_no_missing:
  assumes "cylinders_in_range M pi_entry" "\<not> has_missing_pr pi_entry"
  shows "\<exists>out. populate_pressure_information M D ST d2m pi_entry = Inr out
     \<and> without_pressure_time out = without_pressure_time pi_entry"
proof -
  from populate_loop_result [OF assms(1), of ST d2m] obtain s where
    "populate_loop M ST d2m [0..<length pi_entry]
             \<lparr>ps_entry = pi_entry, ps_track_pr = (\<lambda>cyl. []), ps_cylinderindex = - 1,
              ps_current = None, ps_missing_pr = False\<rparr> = Inr s"
    "without_pressure_time (ps_entry s) = without_pressure_time pi_entry"
    "ps_missing_pr s \<longleftrightarrow> has_missing_pr pi_entry" by blast
  with assms(2) show ?thesis by (simp add: populate_pressure_information_def)
qed

lemma cylinders_in_range_cong:
  assumes "without_pressure_time xs = without_pressure_time ys"
  shows "cylinders_in_range M xs = cylinders_in_range M ys"
proof -
  have "cylinders_in_range M zs
        = list_all (\<lambda>c. 0 \<le> c \<and> c < int M) (map cylinderindex zs)" for zs
    by (simp add: cylinders_in_range_def list_all_iff)
  with without_pressure_time_cylinderindex [OF assms] show ?thesis by simp
qed

lemma populate_total:
  assumes "cylinders_in_range M pi_entry"
  shows "\<exists>out. populate_pressure_information M D ST d2m pi_entry = Inr out"
proof -
  from populate_loop_result [OF assms, of ST d2m] obtain s where
    s: "populate_loop M ST d2m [0..<length pi_entry]
             \<lparr>ps_entry = pi_entry, ps_track_pr = (\<lambda>cyl. []), ps_cylinderindex = - 1,
              ps_current = None, ps_missing_pr = False\<rparr> = Inr s"
    and inv: "without_pressure_time (ps_entry s) = without_pressure_time pi_entry" by blast
  from assms cylinders_in_range_cong [OF inv] have "cylinders_in_range M (ps_entry s)" by simp
  then have "\<forall>c\<in>set (map cylinderindex (ps_entry s)).
           0 \<le> (if (0::int) \<noteq> 0 then D else c) \<and> (if (0::int) \<noteq> 0 then D else c) < int M"
    by (simp add: cylinders_in_range_def list_all_iff)
  from fill_missing_tank_pressures_total [OF this] obtain out where
    "fill_missing_tank_pressures M D (ps_entry s) (ps_track_pr s) 0 = Inr out" by blast
  with s show ?thesis by (simp add: populate_pressure_information_def)
qed

lemma populate_no_division_by_zero:
  "populate_pressure_information M D ST d2m pi_entry \<noteq> Inl Division_By_Zero"
  using populate_loop_no_division_by_zero fill_missing_tank_pressures_no_division_by_zero
  by (auto simp: populate_pressure_information_def split: sum.splits)

lemma populate_frame:
  assumes "populate_pressure_information M D ST d2m pi_entry = Inr out"
  shows "length out = length pi_entry
     \<and> (\<forall>i<length pi_entry.
          (\<exists>e. e\<lparr>pressure_time := 0\<rparr> = (pi_entry ! i)\<lparr>pressure_time := 0\<rparr>
             \<and> (out ! i = e \<or> (0 < i \<and> filler_pressure 0 e = 0
                   \<and> (out ! i = save_pressure 0 e (filler_pressure 0 (out ! i))
                     \<or> out ! i = save_interpolated 0 e (filler_interpolated 0 (out ! i)))))))"
proof -
  from assms obtain s where
    s: "populate_loop M ST d2m [0..<length pi_entry]
             \<lparr>ps_entry = pi_entry, ps_track_pr = (\<lambda>cyl. []), ps_cylinderindex = - 1,
              ps_current = None, ps_missing_pr = False\<rparr> = Inr s"
    and r: "(if ps_missing_pr s
             then fill_missing_tank_pressures M D (ps_entry s) (ps_track_pr s) 0
             else Inr (ps_entry s)) = Inr out"
    by (auto simp: populate_pressure_information_def split: sum.splits)
  from populate_loop_entries [OF s]
  have inv: "without_pressure_time (ps_entry s) = without_pressure_time pi_entry" by simp
  note len = without_pressure_time_length [OF inv]
  show ?thesis
  proof (cases "ps_missing_pr s")
    case False
    with r have "out = ps_entry s" by simp
    with len without_pressure_time_nth [OF inv] show ?thesis by auto
  next
    case True
    with r have f: "fill_missing_tank_pressures M D (ps_entry s) (ps_track_pr s) 0 = Inr out"
      by simp
    from fill_missing_tank_pressures_frame [OF f]
    have lo: "length out = length (ps_entry s)"
      and o0: "ps_entry s \<noteq> [] \<Longrightarrow> out ! 0 = ps_entry s ! 0"
      and fe: "\<And>i. 0 < i \<Longrightarrow> i < length (ps_entry s)
                 \<Longrightarrow> filled_entry (ps_track_pr s) D 0 (ps_entry s ! i) (out ! i)"
      by (simp_all split: if_splits)
    have "\<exists>e. e\<lparr>pressure_time := 0\<rparr> = (pi_entry ! i)\<lparr>pressure_time := 0\<rparr>
             \<and> (out ! i = e \<or> (0 < i \<and> filler_pressure 0 e = 0
                   \<and> (out ! i = save_pressure 0 e (filler_pressure 0 (out ! i))
                     \<or> out ! i = save_interpolated 0 e (filler_interpolated 0 (out ! i)))))"
      if i: "i < length pi_entry" for i
    proof (intro exI [of _ "ps_entry s ! i"] conjI)
      show "(ps_entry s ! i)\<lparr>pressure_time := 0\<rparr> = (pi_entry ! i)\<lparr>pressure_time := 0\<rparr>"
        using without_pressure_time_nth [OF inv i] .
      show "out ! i = ps_entry s ! i \<or> (0 < i \<and> filler_pressure 0 (ps_entry s ! i) = 0
                   \<and> (out ! i = save_pressure 0 (ps_entry s ! i) (filler_pressure 0 (out ! i))
                     \<or> out ! i = save_interpolated 0 (ps_entry s ! i) (filler_interpolated 0 (out ! i))))"
      proof (cases i)
        case 0
        from i len have "ps_entry s \<noteq> []" by auto
        from o0 [OF this] 0 show ?thesis by simp
      next
        case (Suc j)
        with i len fe [of i] show ?thesis
          by (auto simp: filled_entry_def split: if_splits)
      qed
    qed
    with lo len show ?thesis by simp
  qed
qed

subsection \<open>The engine on profiles\<close>

lemmas entry_eval = example_entry_def example_segment_def ccr_entry_def example_depth_to_mbar_def
  SENSOR_PRESSURE_def DILUENT_PRESSURE_def save_pressure_def save_interpolated_def
  pr_track_alloc_def list_add_def update_current_def

lemmas filler_eval = fill_missing_tank_pressures_def tank_pressure_step_def find_segment_def
  get_pr_interpolate_data_def double_div_def rint_def run_of_def dole_pressure_def
  int_of_double_def Let_def

lemmas populate_eval = populate_pressure_information_def populate_step_def integrate_step_def
  calc_pressure_time_def signed_divide_int_def upt_rec


text \<open>
  C8 (amended).  In the scenario of the specification the point-level
  interpolation assigns 185 at \<open>t = 20\<close> and 192 at \<open>t = 10\<close>: the value 192.5
  is rounded by \<^verbatim>\<open>rint\<close>, which takes a tie to the even neighbour.  The engine
  as a whole assigns the same values on a dive whose pressure-times are in the
  same proportion.
\<close>

theorem scenario_interpolation:
  "fill_missing_tank_pressures 8 1 scenario_entries scenario_track_pr 0
     = Inr [example_entry 0 10000 0 0 200,
            (example_entry 10 10000 0 5 0)\<lparr>pressure_INTERPOLATED_PR := 192\<rparr>,
            (example_entry 20 10000 0 5 0)\<lparr>pressure_INTERPOLATED_PR := 185\<rparr>,
            example_entry 30 10000 0 10 170]
   \<and> populate_pressure_information 8 1 750 example_depth_to_mbar scenario_dive
     = Inr [example_entry 0 10000 0 0 200,
            (example_entry 10 10000 0 20130 0)\<lparr>pressure_INTERPOLATED_PR := 192\<rparr>,
            (example_entry 20 10000 0 20130 0)\<lparr>pressure_INTERPOLATED_PR := 185\<rparr>,
            example_entry 30 50260 0 40260 170]
   \<and> rint (200 + (170 - 200) / 20 * 5) = 192"
  by (simp add: scenario_entries_def scenario_track_pr_def scenario_dive_def
      entry_eval filler_eval populate_eval)

text \<open>
  C8 as stated fails: the pressure interpolated at \<open>t = 10\<close> is not 193.
\<close>

theorem scenario_interpolation_counterexample:
  "fill_missing_tank_pressures 8 1 scenario_entries scenario_track_pr 0
     = Inr [example_entry 0 10000 0 0 200,
            (example_entry 10 10000 0 5 0)\<lparr>pressure_INTERPOLATED_PR := 192\<rparr>,
            (example_entry 20 10000 0 5 0)\<lparr>pressure_INTERPOLATED_PR := 185\<rparr>,
            example_entry 30 10000 0 10 170]
   \<and> sec (scenario_entries ! 1) = 10
   \<and> pressure_INTERPOLATED_PR
        ([example_entry 0 10000 0 0 200,
          (example_entry 10 10000 0 5 0)\<lparr>pressure_INTERPOLATED_PR := 192\<rparr>,
          (example_entry 20 10000 0 5 0)\<lparr>pressure_INTERPOLATED_PR := 185\<rparr>,
          example_entry 30 10000 0 10 170] ! 1) \<noteq> 193"
  by (simp add: scenario_entries_def scenario_track_pr_def entry_eval filler_eval upt_rec)

text \<open>
  C2 (amended).  A pass of the gap filler for the main cylinders never touches
  the first entry nor an entry that has a reading; at an entry without a
  reading it writes exactly one slot: the interpolated slot when the pressure
  is interpolated, and the reported (sensor) slot when the last-known pressure
  is carried forward.  Through the whole engine a reading that is present
  passes unchanged, with the interpolated slot beside it untouched.
\<close>

theorem gap_filler_slots:
  "(fill_missing_tank_pressures MAX_CYLINDERS DILUENT_CYLINDER pi_entry track_pr 0 = Inr out \<longrightarrow>
      length out = length pi_entry
    \<and> (\<forall>i<length pi_entry.
         (i = 0 \<or> SENSOR_PRESSURE (pi_entry ! i) \<noteq> 0 \<longrightarrow> out ! i = pi_entry ! i)
       \<and> (0 < i \<and> SENSOR_PRESSURE (pi_entry ! i) = 0
            \<and> \<not> carries_forward (track_pr (cylinderindex (pi_entry ! i))) (sec (pi_entry ! i))
          \<longrightarrow> out ! i = (pi_entry ! i)\<lparr>pressure_INTERPOLATED_PR := pressure_INTERPOLATED_PR (out ! i)\<rparr>)
       \<and> (0 < i \<and> SENSOR_PRESSURE (pi_entry ! i) = 0
            \<and> carries_forward (track_pr (cylinderindex (pi_entry ! i))) (sec (pi_entry ! i))
          \<longrightarrow> out ! i = (pi_entry ! i)\<lparr>pressure_SENSOR_PR := pressure_SENSOR_PR (out ! i)\<rparr>)))
   \<and> (populate_pressure_information MAX_CYLINDERS DILUENT_CYLINDER SURFACE_THRESHOLD depth_to_mbar
         pi_entry = Inr out' \<longrightarrow>
      length out' = length pi_entry
    \<and> (\<forall>i<length pi_entry. SENSOR_PRESSURE (pi_entry ! i) \<noteq> 0 \<longrightarrow>
          pressure_SENSOR_PR (out' ! i) = pressure_SENSOR_PR (pi_entry ! i)
        \<and> pressure_INTERPOLATED_PR (out' ! i) = pressure_INTERPOLATED_PR (pi_entry ! i)))"
proof (intro conjI impI)
  assume f: "fill_missing_tank_pressures MAX_CYLINDERS DILUENT_CYLINDER pi_entry track_pr 0 = Inr out"
  from fill_missing_tank_pressures_frame [OF f]
  have len: "length out = length pi_entry"
    and o0: "pi_entry \<noteq> [] \<Longrightarrow> out ! 0 = pi_entry ! 0"
    and fe: "\<And>i. 0 < i \<Longrightarrow> i < length pi_entry
               \<Longrightarrow> filled_entry track_pr DILUENT_CYLINDER 0 (pi_entry ! i) (out ! i)"
    by (simp_all split: if_splits)
  show "length out = length pi_entry" by (rule len)
  show "\<forall>i<length pi_entry.
         (i = 0 \<or> SENSOR_PRESSURE (pi_entry ! i) \<noteq> 0 \<longrightarrow> out ! i = pi_entry ! i)
       \<and> (0 < i \<and> SENSOR_PRESSURE (pi_entry ! i) = 0
            \<and> \<not> carries_forward (track_pr (cylinderindex (pi_entry ! i))) (sec (pi_entry ! i))
          \<longrightarrow> out ! i = (pi_entry ! i)\<lparr>pressure_INTERPOLATED_PR := pressure_INTERPOLATED_PR (out ! i)\<rparr>)
       \<and> (0 < i \<and> SENSOR_PRESSURE (pi_entry ! i) = 0
            \<and> carries_forward (track_pr (cylinderindex (pi_entry ! i))) (sec (pi_entry ! i))
          \<longrightarrow> out ! i = (pi_entry ! i)\<lparr>pressure_SENSOR_PR := pressure_SENSOR_PR (out ! i)\<rparr>)"
  proof (intro allI impI)
    fix i assume i: "i < length pi_entry"
    show "(i = 0 \<or> SENSOR_PRESSURE (pi_entry ! i) \<noteq> 0 \<longrightarrow> out ! i = pi_entry ! i)
       \<and> (0 < i \<and> SENSOR_PRESSURE (pi_entry ! i) = 0
            \<and> \<not> carries_forward (track_pr (cylinderindex (pi_entry ! i))) (sec (pi_entry ! i))
          \<longrightarrow> out ! i = (pi_entry ! i)\<lparr>pressure_INTERPOLATED_PR := pressure_INTERPOLATED_PR (out ! i)\<rparr>)
       \<and> (0 < i \<and> SENSOR_PRESSURE (pi_entry ! i) = 0
            \<and> carries_forward (track_pr (cylinderindex (pi_entry ! i))) (sec (pi_entry ! i))
          \<longrightarrow> out ! i = (pi_entry ! i)\<lparr>pressure_SENSOR_PR := pressure_SENSOR_PR (out ! i)\<rparr>)"
    proof (cases "i = 0")
      case True
      with i o0 show ?thesis by auto
    next
      case False
      with fe [of i] i show ?thesis
        by (auto simp: filled_entry_def filler_defs split: if_splits)
    qed
  qed
next
  assume p: "populate_pressure_information MAX_CYLINDERS DILUENT_CYLINDER SURFACE_THRESHOLD
               depth_to_mbar pi_entry = Inr out'"
  note fr = populate_frame [OF p]
  from fr show "length out' = length pi_entry" by simp
  show "\<forall>i<length pi_entry. SENSOR_PRESSURE (pi_entry ! i) \<noteq> 0 \<longrightarrow>
          pressure_SENSOR_PR (out' ! i) = pressure_SENSOR_PR (pi_entry ! i)
        \<and> pressure_INTERPOLATED_PR (out' ! i) = pressure_INTERPOLATED_PR (pi_entry ! i)"
  proof (intro allI impI)
    fix i assume i: "i < length pi_entry" and nz: "SENSOR_PRESSURE (pi_entry ! i) \<noteq> 0"
    from fr i obtain e where e: "e\<lparr>pressure_time := 0\<rparr> = (pi_entry ! i)\<lparr>pressure_time := 0\<rparr>"
      and o: "out' ! i = e \<or> (0 < i \<and> filler_pressure 0 e = 0
                   \<and> (out' ! i = save_pressure 0 e (filler_pressure 0 (out' ! i))
                     \<or> out' ! i = save_interpolated 0 e (filler_interpolated 0 (out' ! i))))"
      by blast
    from arg_cong [OF e, of pressure_SENSOR_PR] arg_cong [OF e, of pressure_INTERPOLATED_PR]
    have s: "pressure_SENSOR_PR e = pressure_SENSOR_PR (pi_entry ! i)"
      "pressure_INTERPOLATED_PR e = pressure_INTERPOLATED_PR (pi_entry ! i)" by simp_all
    with nz have "filler_pressure 0 e \<noteq> 0" by (simp add: filler_defs)
    with o have "out' ! i = e" by blast
    with s show "pressure_SENSOR_PR (out' ! i) = pressure_SENSOR_PR (pi_entry ! i)
        \<and> pressure_INTERPOLATED_PR (out' ! i) = pressure_INTERPOLATED_PR (pi_entry ! i)" by simp
  qed
qed

theorem gap_filler_slots_witness:
  "fill_missing_tank_pressures 8 1 scenario_entries scenario_track_pr 0
     = Inr [example_entry 0 10000 0 0 200,
            (example_entry 10 10000 0 5 0)\<lparr>pressure_INTERPOLATED_PR := 192\<rparr>,
            (example_entry 20 10000 0 5 0)\<lparr>pressure_INTERPOLATED_PR := 185\<rparr>,
            example_entry 30 10000 0 10 170]
   \<and> SENSOR_PRESSURE (scenario_entries ! 1) = 0
   \<and> carries_forward (scenario_track_pr (cylinderindex (scenario_entries ! 1)))
        (sec (scenario_entries ! 1)) = False
   \<and> SENSOR_PRESSURE (scenario_entries ! 3) = 170
   \<and> fill_missing_tank_pressures 8 1 surface_profile surface_track_pr 0
     = Inr [example_entry 0 0 0 0 200, example_entry 10 0 0 0 200]
   \<and> SENSOR_PRESSURE (surface_profile ! 1) = 0
   \<and> carries_forward (surface_track_pr (cylinderindex (surface_profile ! 1)))
        (sec (surface_profile ! 1)) = True
   \<and> populate_pressure_information 8 1 750 example_depth_to_mbar resolved_profile
     = Inr [example_entry 0 10000 0 0 200, example_entry 10 10000 0 20130 190,
            example_entry 20 10000 1 20130 180]
   \<and> SENSOR_PRESSURE (resolved_profile ! 1) = 190"
  using gap_filler_slots [where MAX_CYLINDERS = 8 and DILUENT_CYLINDER = 1
      and pi_entry = scenario_entries and track_pr = scenario_track_pr
      and out = "[example_entry 0 10000 0 0 200,
        (example_entry 10 10000 0 5 0)\<lparr>pressure_INTERPOLATED_PR := 192\<rparr>,
        (example_entry 20 10000 0 5 0)\<lparr>pressure_INTERPOLATED_PR := 185\<rparr>,
        example_entry 30 10000 0 10 170]"
      and SURFACE_THRESHOLD = 750 and depth_to_mbar = example_depth_to_mbar and out' = "[]"]
    gap_filler_slots [where MAX_CYLINDERS = 8 and DILUENT_CYLINDER = 1
      and pi_entry = surface_profile and track_pr = surface_track_pr
      and out = "[example_entry 0 0 0 0 200, example_entry 10 0 0 0 200]"
      and SURFACE_THRESHOLD = 750 and depth_to_mbar = example_depth_to_mbar and out' = "[]"]
    gap_filler_slots [where MAX_CYLINDERS = 8 and DILUENT_CYLINDER = 1
      and pi_entry = resolved_profile and track_pr = surface_track_pr and out = "[]"
      and SURFACE_THRESHOLD = 750 and depth_to_mbar = example_depth_to_mbar
      and out' = "[example_entry 0 10000 0 0 200, example_entry 10 10000 0 20130 190,
        example_entry 20 10000 1 20130 180]"]
  by (simp add: scenario_entries_def scenario_track_pr_def surface_profile_def
      surface_track_pr_def resolved_profile_def carries_forward_def
      entry_eval filler_eval populate_eval)

text \<open>
  C2 as stated fails: at the surface the carried-forward pressure 200 is
  stored in the reported slot of the entry without a reading.
\<close>

theorem gap_filler_slots_counterexample:
  "populate_pressure_information 8 1 750 example_depth_to_mbar surface_profile
     = Inr [example_entry 0 0 0 0 200, example_entry 10 0 0 0 200]
   \<and> pressure_SENSOR_PR (surface_profile ! 1) = 0
   \<and> pressure_SENSOR_PR ([example_entry 0 0 0 0 200, example_entry 10 0 0 0 200] ! 1) = 200
   \<and> pressure_INTERPOLATED_PR ([example_entry 0 0 0 0 200, example_entry 10 0 0 0 200] ! 1) = 0"
  by (simp add: surface_profile_def entry_eval filler_eval populate_eval)


lemma without_pressure_time_maps:
  assumes "without_pressure_time xs = without_pressure_time ys"
  shows "map pressure_SENSOR_PR xs = map pressure_SENSOR_PR ys
       \<and> map pressure_INTERPOLATED_PR xs = map pressure_INTERPOLATED_PR ys
       \<and> map diluentpressure_SENSOR_PR xs = map diluentpressure_SENSOR_PR ys
       \<and> map diluentpressure_INTERPOLATED_PR xs = map diluentpressure_INTERPOLATED_PR ys"
proof -
  have "map pressure_SENSOR_PR zs = map pressure_SENSOR_PR (without_pressure_time zs)"
    "map pressure_INTERPOLATED_PR zs = map pressure_INTERPOLATED_PR (without_pressure_time zs)"
    "map diluentpressure_SENSOR_PR zs = map diluentpressure_SENSOR_PR (without_pressure_time zs)"
    "map diluentpressure_INTERPOLATED_PR zs
       = map diluentpressure_INTERPOLATED_PR (without_pressure_time zs)" for zs
    by (simp_all add: without_pressure_time_def comp_def)
  with assms show ?thesis by metis
qed

lemma all_readings_no_missing:
  assumes "\<forall>entry\<in>set pi_entry. SENSOR_PRESSURE entry \<noteq> 0"
  shows "\<not> has_missing_pr pi_entry"
  unfolding has_missing_pr_iff using assms nth_mem [of _ pi_entry] by blast

text \<open>
  C7.  On a profile with a reading at every entry the engine returns, run once
  or twice, and leaves all four pressure slots of every entry as they were:
  nothing is interpolated, every reported pressure is unchanged.
\<close>

theorem populate_resolved_profile:
  assumes "cylinders_in_range MAX_CYLINDERS pi_entry"
    and "\<forall>entry\<in>set pi_entry. SENSOR_PRESSURE entry \<noteq> 0"
  shows "\<exists>out out2.
      populate_pressure_information MAX_CYLINDERS DILUENT_CYLINDER SURFACE_THRESHOLD depth_to_mbar
        pi_entry = Inr out
    \<and> populate_pressure_information MAX_CYLINDERS DILUENT_CYLINDER SURFACE_THRESHOLD depth_to_mbar
        out = Inr out2
    \<and> map pressure_SENSOR_PR out = map pressure_SENSOR_PR pi_entry
    \<and> map pressure_INTERPOLATED_PR out = map pressure_INTERPOLATED_PR pi_entry
    \<and> map diluentpressure_SENSOR_PR out = map diluentpressure_SENSOR_PR pi_entry
    \<and> map diluentpressure_INTERPOLATED_PR out = map diluentpressure_INTERPOLATED_PR pi_entry
    \<and> map pressure_SENSOR_PR out2 = map pressure_SENSOR_PR pi_entry
    \<and> map pressure_INTERPOLATED_PR out2 = map pressure_INTERPOLATED_PR pi_entry
    \<and> map diluentpressure_SENSOR_PR out2 = map diluentpressure_SENSOR_PR pi_entry
    \<and> map diluentpressure_INTERPOLATED_PR out2 = map diluentpressure_INTERPOLATED_PR pi_entry"
proof -
  from populate_no_missing [OF assms(1) all_readings_no_missing [OF assms(2)]]
  obtain out where
    out: "populate_pressure_information MAX_CYLINDERS DILUENT_CYLINDER SURFACE_THRESHOLD
            depth_to_mbar pi_entry = Inr out"
    and w: "without_pressure_time out = without_pressure_time pi_entry" by blast
  from assms(1) cylinders_in_range_cong [OF w]
  have r: "cylinders_in_range MAX_CYLINDERS out" by simp
  have "map SENSOR_PRESSURE out = map SENSOR_PRESSURE pi_entry"
    using without_pressure_time_maps [OF w] by (simp add: SENSOR_PRESSURE_def [abs_def])
  then have "SENSOR_PRESSURE ` set out = SENSOR_PRESSURE ` set pi_entry"
    by (metis set_map)
  with assms(2) have "\<forall>entry\<in>set out. SENSOR_PRESSURE entry \<noteq> 0" by force
  from populate_no_missing [OF r all_readings_no_missing [OF this]]
  obtain out2 where
    out2: "populate_pressure_information MAX_CYLINDERS DILUENT_CYLINDER SURFACE_THRESHOLD
            depth_to_mbar out = Inr out2"
    and w2: "without_pressure_time out2 = without_pressure_time out" by blast
  from w w2 have w3: "without_pressure_time out2 = without_pressure_time pi_entry" by simp
  from out out2 without_pressure_time_maps [OF w] without_pressure_time_maps [OF w3]
  show ?thesis by blast
qed

theorem populate_resolved_profile_witness:
  "cylinders_in_range 8 resolved_profile
   \<and> map SENSOR_PRESSURE resolved_profile = [200, 190, 180]
   \<and> populate_pressure_information 8 1 750 example_depth_to_mbar resolved_profile
     = Inr [example_entry 0 10000 0 0 200, example_entry 10 10000 0 20130 190,
            example_entry 20 10000 1 20130 180]
   \<and> populate_pressure_information 8 1 750 example_depth_to_mbar
       [example_entry 0 10000 0 0 200, example_entry 10 10000 0 20130 190,
        example_entry 20 10000 1 20130 180]
     = Inr [example_entry 0 10000 0 0 200, example_entry 10 10000 0 20130 190,
            example_entry 20 10000 1 20130 180]
   \<and> map pressure_INTERPOLATED_PR
        [example_entry 0 10000 0 0 200, example_entry 10 10000 0 20130 190,
         example_entry 20 10000 1 20130 180] = [0, 0, 0]"
proof -
  have r: "cylinders_in_range 8 resolved_profile"
    by (simp add: cylinders_in_range_def resolved_profile_def example_entry_def)
  have s: "\<forall>entry\<in>set resolved_profile. SENSOR_PRESSURE entry \<noteq> 0"
    by (simp add: resolved_profile_def example_entry_def SENSOR_PRESSURE_def)
  have m: "map SENSOR_PRESSURE resolved_profile = [200, 190, 180]"
    by (simp add: resolved_profile_def example_entry_def SENSOR_PRESSURE_def)
  from populate_resolved_profile [OF r s, of 1 750 example_depth_to_mbar]
  show ?thesis using r m
    by (simp add: resolved_profile_def entry_eval filler_eval populate_eval)
qed

text \<open>
  C10.  When every entry without a reading is the first entry or an entry
  where the cylinder changes, the scan ends with the missing-pressure flag
  unset, the gap filler is not called, and the engine returns the entries
  with all four pressure slots as they were.
\<close>

theorem populate_gaps_at_segment_starts:
  assumes "cylinders_in_range MAX_CYLINDERS pi_entry"
    and "\<forall>i<length pi_entry. SENSOR_PRESSURE (pi_entry ! i) = 0 \<longrightarrow>
           i = 0 \<or> cylinderindex (pi_entry ! i) \<noteq> cylinderindex (pi_entry ! (i - 1))"
  shows "\<exists>s. populate_loop MAX_CYLINDERS SURFACE_THRESHOLD depth_to_mbar [0..<length pi_entry]
               \<lparr>ps_entry = pi_entry, ps_track_pr = (\<lambda>cyl. []), ps_cylinderindex = - 1,
                ps_current = None, ps_missing_pr = False\<rparr> = Inr s
           \<and> \<not> ps_missing_pr s
           \<and> populate_pressure_information MAX_CYLINDERS DILUENT_CYLINDER SURFACE_THRESHOLD
               depth_to_mbar pi_entry = Inr (ps_entry s)
           \<and> map pressure_SENSOR_PR (ps_entry s) = map pressure_SENSOR_PR pi_entry
           \<and> map pressure_INTERPOLATED_PR (ps_entry s) = map pressure_INTERPOLATED_PR pi_entry
           \<and> map diluentpressure_SENSOR_PR (ps_entry s) = map diluentpressure_SENSOR_PR pi_entry
           \<and> map diluentpressure_INTERPOLATED_PR (ps_entry s)
               = map diluentpressure_INTERPOLATED_PR pi_entry"
proof -
  from assms(2) have nm: "\<not> has_missing_pr pi_entry"
    unfolding has_missing_pr_iff by auto
  from populate_loop_result [OF assms(1), of SURFACE_THRESHOLD depth_to_mbar] obtain s where
    s: "populate_loop MAX_CYLINDERS SURFACE_THRESHOLD depth_to_mbar [0..<length pi_entry]
             \<lparr>ps_entry = pi_entry, ps_track_pr = (\<lambda>cyl. []), ps_cylinderindex = - 1,
              ps_current = None, ps_missing_pr = False\<rparr> = Inr s"
    and w: "without_pressure_time (ps_entry s) = without_pressure_time pi_entry"
    and m: "ps_missing_pr s \<longleftrightarrow> has_missing_pr pi_entry" by blast
  from s m nm have "populate_pressure_information MAX_CYLINDERS DILUENT_CYLINDER SURFACE_THRESHOLD
               depth_to_mbar pi_entry = Inr (ps_entry s)"
    by (simp add: populate_pressure_information_def)
  with s m nm without_pressure_time_maps [OF w] show ?thesis by blast
qed

theorem populate_gaps_at_segment_starts_witness:
  "cylinders_in_range 8 switch_profile
   \<and> has_missing_pr switch_profile = False
   \<and> map SENSOR_PRESSURE switch_profile = [0, 0, 150]
   \<and> map cylinderindex switch_profile = [0, 1, 1]
   \<and> populate_pressure_information 8 1 750 example_depth_to_mbar switch_profile
     = Inr [example_entry 0 10000 0 0 0, example_entry 10 10000 1 20130 0,
            example_entry 20 10000 1 20130 150]"
proof -
  have r: "cylinders_in_range 8 switch_profile"
    by (simp add: cylinders_in_range_def switch_profile_def example_entry_def)
  have nm: "has_missing_pr switch_profile = False"
    by (simp add: switch_profile_def example_entry_def SENSOR_PRESSURE_def)
  then have h: "\<forall>i<length switch_profile. SENSOR_PRESSURE (switch_profile ! i) = 0 \<longrightarrow>
           i = 0 \<or> cylinderindex (switch_profile ! i) \<noteq> cylinderindex (switch_profile ! (i - 1))"
    unfolding has_missing_pr_iff by auto
  from populate_gaps_at_segment_starts [OF r h, of 750 example_depth_to_mbar 1]
  show ?thesis using r nm
    by (simp add: switch_profile_def entry_eval filler_eval populate_eval)
qed

text \<open>
  C5 (amended).  The engine has no diluent switch: it leaves every diluent
  slot as it was.  The diluent pass exists in the gap filler alone: called
  with a non-zero diluent flag it leaves the slots of the main cylinders
  alone, looks at the diluent reading of each entry, takes its segments from
  the slot \<^verbatim>\<open>DILUENT_CYLINDER\<close> of the segment table, and writes the diluent slots as
  the main pass writes the main ones.
\<close>

theorem diluent_pass:
  "(populate_pressure_information MAX_CYLINDERS DILUENT_CYLINDER SURFACE_THRESHOLD depth_to_mbar
      pi_entry = Inr out \<longrightarrow>
      map diluentpressure_SENSOR_PR out = map diluentpressure_SENSOR_PR pi_entry
    \<and> map diluentpressure_INTERPOLATED_PR out = map diluentpressure_INTERPOLATED_PR pi_entry)
   \<and> (diluent_flag \<noteq> 0
       \<and> fill_missing_tank_pressures MAX_CYLINDERS DILUENT_CYLINDER pi_entry track_pr diluent_flag
           = Inr out' \<longrightarrow>
      length out' = length pi_entry
    \<and> (\<forall>i<length pi_entry.
         pressure_SENSOR_PR (out' ! i) = pressure_SENSOR_PR (pi_entry ! i)
       \<and> pressure_INTERPOLATED_PR (out' ! i) = pressure_INTERPOLATED_PR (pi_entry ! i)
       \<and> (i = 0 \<or> DILUENT_PRESSURE (pi_entry ! i) \<noteq> 0 \<longrightarrow> out' ! i = pi_entry ! i)
       \<and> (0 < i \<and> DILUENT_PRESSURE (pi_entry ! i) = 0
            \<and> \<not> carries_forward (track_pr DILUENT_CYLINDER) (sec (pi_entry ! i))
          \<longrightarrow> out' ! i = (pi_entry ! i)\<lparr>diluentpressure_INTERPOLATED_PR :=
                               diluentpressure_INTERPOLATED_PR (out' ! i)\<rparr>)
       \<and> (0 < i \<and> DILUENT_PRESSURE (pi_entry ! i) = 0
            \<and> carries_forward (track_pr DILUENT_CYLINDER) (sec (pi_entry ! i))
          \<longrightarrow> out' ! i = (pi_entry ! i)\<lparr>diluentpressure_SENSOR_PR :=
                               diluentpressure_SENSOR_PR (out' ! i)\<rparr>)))"
proof (intro conjI impI)
  assume p: "populate_pressure_information MAX_CYLINDERS DILUENT_CYLINDER SURFACE_THRESHOLD
               depth_to_mbar pi_entry = Inr out"
  note fr = populate_frame [OF p]
  then have len: "length out = length pi_entry" by simp
  have d: "diluentpressure_SENSOR_PR (out ! i) = diluentpressure_SENSOR_PR (pi_entry ! i)
         \<and> diluentpressure_INTERPOLATED_PR (out ! i) = diluentpressure_INTERPOLATED_PR (pi_entry ! i)"
    if i: "i < length pi_entry" for i
  proof -
    from fr i obtain e where e: "e\<lparr>pressure_time := 0\<rparr> = (pi_entry ! i)\<lparr>pressure_time := 0\<rparr>"
      and o: "out ! i = e \<or> (0 < i \<and> filler_pressure 0 e = 0
                   \<and> (out ! i = save_pressure 0 e (filler_pressure 0 (out ! i))
                     \<or> out ! i = save_interpolated 0 e (filler_interpolated 0 (out ! i))))"
      by blast
    from arg_cong [OF e, of diluentpressure_SENSOR_PR]
      arg_cong [OF e, of diluentpressure_INTERPOLATED_PR]
    have s: "diluentpressure_SENSOR_PR e = diluentpressure_SENSOR_PR (pi_entry ! i)"
      "diluentpressure_INTERPOLATED_PR e = diluentpressure_INTERPOLATED_PR (pi_entry ! i)"
      by simp_all
    from o consider "out ! i = e"
      | v where "out ! i = e\<lparr>pressure_SENSOR_PR := v\<rparr>"
      | v where "out ! i = e\<lparr>pressure_INTERPOLATED_PR := v\<rparr>"
      by (auto simp: save_pressure_def save_interpolated_def)
    then show ?thesis using s by cases simp_all
  qed
  show "map diluentpressure_SENSOR_PR out = map diluentpressure_SENSOR_PR pi_entry"
    using len d by (intro nth_equalityI) simp_all
  show "map diluentpressure_INTERPOLATED_PR out = map diluentpressure_INTERPOLATED_PR pi_entry"
    using len d by (intro nth_equalityI) simp_all
next
  assume "diluent_flag \<noteq> 0
       \<and> fill_missing_tank_pressures MAX_CYLINDERS DILUENT_CYLINDER pi_entry track_pr diluent_flag
           = Inr out'"
  then have fl: "diluent_flag \<noteq> 0"
    and f: "fill_missing_tank_pressures MAX_CYLINDERS DILUENT_CYLINDER pi_entry track_pr diluent_flag
           = Inr out'" by simp_all
  from fill_missing_tank_pressures_frame [OF f]
  have len: "length out' = length pi_entry"
    and o0: "pi_entry \<noteq> [] \<Longrightarrow> out' ! 0 = pi_entry ! 0"
    and fe: "\<And>i. 0 < i \<Longrightarrow> i < length pi_entry
               \<Longrightarrow> filled_entry track_pr DILUENT_CYLINDER diluent_flag (pi_entry ! i) (out' ! i)"
    by (simp_all split: if_splits)
  show "length out' = length pi_entry" by (rule len)
  show "\<forall>i<length pi_entry.
         pressure_SENSOR_PR (out' ! i) = pressure_SENSOR_PR (pi_entry ! i)
       \<and> pressure_INTERPOLATED_PR (out' ! i) = pressure_INTERPOLATED_PR (pi_entry ! i)
       \<and> (i = 0 \<or> DILUENT_PRESSURE (pi_entry ! i) \<noteq> 0 \<longrightarrow> out' ! i = pi_entry ! i)
       \<and> (0 < i \<and> DILUENT_PRESSURE (pi_entry ! i) = 0
            \<and> \<not> carries_forward (track_pr DILUENT_CYLINDER) (sec (pi_entry ! i))
          \<longrightarrow> out' ! i = (pi_entry ! i)\<lparr>diluentpressure_INTERPOLATED_PR :=
                               diluentpressure_INTERPOLATED_PR (out' ! i)\<rparr>)
       \<and> (0 < i \<and> DILUENT_PRESSURE (pi_entry ! i) = 0
            \<and> carries_forward (track_pr DILUENT_CYLINDER) (sec (pi_entry ! i))
          \<longrightarrow> out' ! i = (pi_entry ! i)\<lparr>diluentpressure_SENSOR_PR :=
                               diluentpressure_SENSOR_PR (out' ! i)\<rparr>)"
  proof (intro allI impI)
    fix i assume i: "i < length pi_entry"
    show "pressure_SENSOR_PR (out' ! i) = pressure_SENSOR_PR (pi_entry ! i)
       \<and> pressure_INTERPOLATED_PR (out' ! i) = pressure_INTERPOLATED_PR (pi_entry ! i)
       \<and> (i = 0 \<or> DILUENT_PRESSURE (pi_entry ! i) \<noteq> 0 \<longrightarrow> out' ! i = pi_entry ! i)
       \<and> (0 < i \<and> DILUENT_PRESSURE (pi_entry ! i) = 0
            \<and> \<not> carries_forward (track_pr DILUENT_CYLINDER) (sec (pi_entry ! i))
          \<longrightarrow> out' ! i = (pi_entry ! i)\<lparr>diluentpressure_INTERPOLATED_PR :=
                               diluentpressure_INTERPOLATED_PR (out' ! i)\<rparr>)
       \<and> (0 < i \<and> DILUENT_PRESSURE (pi_entry ! i) = 0
            \<and> carries_forward (track_pr DILUENT_CYLINDER) (sec (pi_entry ! i))
          \<longrightarrow> out' ! i = (pi_entry ! i)\<lparr>diluentpressure_SENSOR_PR :=
                               diluentpressure_SENSOR_PR (out' ! i)\<rparr>)"
    proof (cases "i = 0")
      case True
      with i o0 show ?thesis by auto
    next
      case False
      then have pos: "0 < i" by simp
      note f = fe [OF pos i, unfolded filled_entry_def filler_defs]
      show ?thesis
      proof (cases "DILUENT_PRESSURE (pi_entry ! i) = 0")
        case nz: False
        with f fl have "out' ! i = pi_entry ! i" by (simp add: DILUENT_PRESSURE_def)
        with nz show ?thesis by simp
      next
        case z: True
        show ?thesis
        proof (cases "carries_forward (track_pr DILUENT_CYLINDER) (sec (pi_entry ! i))")
          case True
          with f fl z have e: "out' ! i = (pi_entry ! i)\<lparr>diluentpressure_SENSOR_PR :=
                               diluentpressure_SENSOR_PR (out' ! i)\<rparr>"
            by (simp add: DILUENT_PRESSURE_def)
          have "pressure_SENSOR_PR (out' ! i) = pressure_SENSOR_PR (pi_entry ! i)"
            "pressure_INTERPOLATED_PR (out' ! i) = pressure_INTERPOLATED_PR (pi_entry ! i)"
            using arg_cong [OF e, of pressure_SENSOR_PR]
              arg_cong [OF e, of pressure_INTERPOLATED_PR] by simp_all
          with True z pos e show ?thesis by blast
        next
          case False
          with f fl z have e: "out' ! i = (pi_entry ! i)\<lparr>diluentpressure_INTERPOLATED_PR :=
                               diluentpressure_INTERPOLATED_PR (out' ! i)\<rparr>"
            by (simp add: DILUENT_PRESSURE_def)
          have "pressure_SENSOR_PR (out' ! i) = pressure_SENSOR_PR (pi_entry ! i)"
            "pressure_INTERPOLATED_PR (out' ! i) = pressure_INTERPOLATED_PR (pi_entry ! i)"
            using arg_cong [OF e, of pressure_SENSOR_PR]
              arg_cong [OF e, of pressure_INTERPOLATED_PR] by simp_all
          with False z pos e show ?thesis by blast
        qed
      qed
    qed
  qed
qed

theorem diluent_pass_witness:
  "populate_pressure_information 8 1 750 example_depth_to_mbar ccr_profile
     = Inr [ccr_entry 0 10000 200 200,
            (ccr_entry 10 10000 0 0)\<lparr>pressure_time := 20130, pressure_INTERPOLATED_PR := 192\<rparr>,
            (ccr_entry 20 10000 0 0)\<lparr>pressure_time := 20130, pressure_INTERPOLATED_PR := 185\<rparr>,
            (ccr_entry 30 50260 170 170)\<lparr>pressure_time := 40260\<rparr>]
   \<and> (1::int) \<noteq> 0
   \<and> fill_missing_tank_pressures 8 1 ccr_entries ccr_track_pr 1
     = Inr [ccr_entry 0 10000 200 200,
            (ccr_entry 10 10000 0 0)\<lparr>pressure_time := 20130, diluentpressure_INTERPOLATED_PR := 192\<rparr>,
            (ccr_entry 20 10000 0 0)\<lparr>pressure_time := 20130, diluentpressure_INTERPOLATED_PR := 185\<rparr>,
            (ccr_entry 30 50260 170 170)\<lparr>pressure_time := 40260\<rparr>]
   \<and> DILUENT_PRESSURE (ccr_entries ! 1) = 0
   \<and> carries_forward (ccr_track_pr 1) (sec (ccr_entries ! 1)) = False"
  using diluent_pass [where MAX_CYLINDERS = 8 and DILUENT_CYLINDER = 1
      and SURFACE_THRESHOLD = 750 and depth_to_mbar = example_depth_to_mbar
      and pi_entry = ccr_profile and diluent_flag = 1 and track_pr = ccr_track_pr
      and out = "[ccr_entry 0 10000 200 200,
        (ccr_entry 10 10000 0 0)\<lparr>pressure_time := 20130, pressure_INTERPOLATED_PR := 192\<rparr>,
        (ccr_entry 20 10000 0 0)\<lparr>pressure_time := 20130, pressure_INTERPOLATED_PR := 185\<rparr>,
        (ccr_entry 30 50260 170 170)\<lparr>pressure_time := 40260\<rparr>]"]
    diluent_pass [where MAX_CYLINDERS = 8 and DILUENT_CYLINDER = 1
      and SURFACE_THRESHOLD = 750 and depth_to_mbar = example_depth_to_mbar
      and pi_entry = ccr_entries and diluent_flag = 1 and track_pr = ccr_track_pr
      and out' = "[ccr_entry 0 10000 200 200,
        (ccr_entry 10 10000 0 0)\<lparr>pressure_time := 20130, diluentpressure_INTERPOLATED_PR := 192\<rparr>,
        (ccr_entry 20 10000 0 0)\<lparr>pressure_time := 20130, diluentpressure_INTERPOLATED_PR := 185\<rparr>,
        (ccr_entry 30 50260 170 170)\<lparr>pressure_time := 40260\<rparr>]"]
  by (simp add: ccr_profile_def ccr_entries_def ccr_track_pr_def carries_forward_def
      entry_eval filler_eval populate_eval)

text \<open>
  C5 as stated fails: on a rebreather profile with the same gaps on both
  sensors the engine interpolates the main pressure and leaves the diluent
  slots of the entries without a diluent reading unset.
\<close>

theorem diluent_pass_counterexample:
  "populate_pressure_information 8 1 750 example_depth_to_mbar ccr_profile
     = Inr [ccr_entry 0 10000 200 200,
            (ccr_entry 10 10000 0 0)\<lparr>pressure_time := 20130, pressure_INTERPOLATED_PR := 192\<rparr>,
            (ccr_entry 20 10000 0 0)\<lparr>pressure_time := 20130, pressure_INTERPOLATED_PR := 185\<rparr>,
            (ccr_entry 30 50260 170 170)\<lparr>pressure_time := 40260\<rparr>]
   \<and> map DILUENT_PRESSURE ccr_profile = [200, 0, 0, 170]
   \<and> map diluentpressure_INTERPOLATED_PR
        [ccr_entry 0 10000 200 200,
         (ccr_entry 10 10000 0 0)\<lparr>pressure_time := 20130, pressure_INTERPOLATED_PR := 192\<rparr>,
         (ccr_entry 20 10000 0 0)\<lparr>pressure_time := 20130, pressure_INTERPOLATED_PR := 185\<rparr>,
         (ccr_entry 30 50260 170 170)\<lparr>pressure_time := 40260\<rparr>] = [0, 0, 0, 0]"
  by (simp add: ccr_profile_def entry_eval filler_eval populate_eval)

text \<open>
  C9.  At an entry without a reading, with its cylinder inside the table: when
  there is no segment or the segment has no pressure-time, and likewise when
  the interpolation window has no pressure-time, the value stored is the
  last-known pressure of the cylinder, which stays as it is.  The step always
  returns a result; neither the gap filler nor the engine ever divides by
  zero, and the engine returns a result for every profile whose cylinder
  indices are inside the table.
\<close>

theorem carry_forward_unchanged:
  assumes "0 \<le> filler_cylinder DILUENT_CYLINDER diluent_flag (pi_entry ! i)"
    and "filler_cylinder DILUENT_CYLINDER diluent_flag (pi_entry ! i) < int MAX_CYLINDERS"
    and "filler_pressure diluent_flag (pi_entry ! i) = 0"
  shows "(carries_forward (track_pr (filler_cylinder DILUENT_CYLINDER diluent_flag (pi_entry ! i)))
            (sec (pi_entry ! i)) \<longrightarrow>
          tank_pressure_step MAX_CYLINDERS DILUENT_CYLINDER track_pr diluent_flag i (pi_entry, cur_pr)
            = Inr (pi_entry[i := save_pressure diluent_flag (pi_entry ! i)
                     (cur_pr (filler_cylinder DILUENT_CYLINDER diluent_flag (pi_entry ! i)))], cur_pr))
       \<and> (\<not> carries_forward (track_pr (filler_cylinder DILUENT_CYLINDER diluent_flag (pi_entry ! i)))
            (sec (pi_entry ! i))
          \<and> ip_pressure_time (get_pr_interpolate_data
               (hd (find_segment (track_pr (filler_cylinder DILUENT_CYLINDER diluent_flag (pi_entry ! i)))
                      (sec (pi_entry ! i)))) pi_entry i diluent_flag) = 0 \<longrightarrow>
          tank_pressure_step MAX_CYLINDERS DILUENT_CYLINDER track_pr diluent_flag i (pi_entry, cur_pr)
            = Inr (pi_entry[i := save_interpolated diluent_flag (pi_entry ! i)
                     (cur_pr (filler_cylinder DILUENT_CYLINDER diluent_flag (pi_entry ! i)))], cur_pr))
       \<and> tank_pressure_step MAX_CYLINDERS DILUENT_CYLINDER track_pr diluent_flag i (pi_entry, cur_pr)
            \<noteq> Inl Division_By_Zero
       \<and> (\<exists>st'. tank_pressure_step MAX_CYLINDERS DILUENT_CYLINDER track_pr diluent_flag i
                   (pi_entry, cur_pr) = Inr st')
       \<and> fill_missing_tank_pressures MAX_CYLINDERS DILUENT_CYLINDER pi_entry track_pr diluent_flag
            \<noteq> Inl Division_By_Zero
       \<and> populate_pressure_information MAX_CYLINDERS DILUENT_CYLINDER SURFACE_THRESHOLD
            depth_to_mbar pi_entry \<noteq> Inl Division_By_Zero
       \<and> (cylinders_in_range MAX_CYLINDERS pi_entry \<longrightarrow>
            (\<exists>out. populate_pressure_information MAX_CYLINDERS DILUENT_CYLINDER SURFACE_THRESHOLD
                     depth_to_mbar pi_entry = Inr out))"
proof (intro conjI impI)
  assume "carries_forward (track_pr (filler_cylinder DILUENT_CYLINDER diluent_flag (pi_entry ! i)))
            (sec (pi_entry ! i))"
  with assms show "tank_pressure_step MAX_CYLINDERS DILUENT_CYLINDER track_pr diluent_flag i
            (pi_entry, cur_pr)
            = Inr (pi_entry[i := save_pressure diluent_flag (pi_entry ! i)
                     (cur_pr (filler_cylinder DILUENT_CYLINDER diluent_flag (pi_entry ! i)))], cur_pr)"
    by (auto simp: tank_pressure_step_def Let_def carries_forward_def filler_pressure_def
        filler_cylinder_def split: list.splits)
next
  assume "\<not> carries_forward (track_pr (filler_cylinder DILUENT_CYLINDER diluent_flag (pi_entry ! i)))
            (sec (pi_entry ! i))
          \<and> ip_pressure_time (get_pr_interpolate_data
               (hd (find_segment (track_pr (filler_cylinder DILUENT_CYLINDER diluent_flag (pi_entry ! i)))
                      (sec (pi_entry ! i)))) pi_entry i diluent_flag) = 0"
  with assms show "tank_pressure_step MAX_CYLINDERS DILUENT_CYLINDER track_pr diluent_flag i
            (pi_entry, cur_pr)
            = Inr (pi_entry[i := save_interpolated diluent_flag (pi_entry ! i)
                     (cur_pr (filler_cylinder DILUENT_CYLINDER diluent_flag (pi_entry ! i)))], cur_pr)"
    by (auto simp: tank_pressure_step_def Let_def carries_forward_def filler_pressure_def
        filler_cylinder_def split: list.splits)
next
  show "tank_pressure_step MAX_CYLINDERS DILUENT_CYLINDER track_pr diluent_flag i (pi_entry, cur_pr)
            \<noteq> Inl Division_By_Zero"
    by (rule tank_pressure_step_no_division_by_zero)
  show "\<exists>st'. tank_pressure_step MAX_CYLINDERS DILUENT_CYLINDER track_pr diluent_flag i
                   (pi_entry, cur_pr) = Inr st'"
    using assms(1,2) by (rule tank_pressure_step_total)
  show "fill_missing_tank_pressures MAX_CYLINDERS DILUENT_CYLINDER pi_entry track_pr diluent_flag
            \<noteq> Inl Division_By_Zero"
    by (rule fill_missing_tank_pressures_no_division_by_zero)
  show "populate_pressure_information MAX_CYLINDERS DILUENT_CYLINDER SURFACE_THRESHOLD
            depth_to_mbar pi_entry \<noteq> Inl Division_By_Zero"
    by (rule populate_no_division_by_zero)
next
  assume "cylinders_in_range MAX_CYLINDERS pi_entry"
  then show "\<exists>out. populate_pressure_information MAX_CYLINDERS DILUENT_CYLINDER SURFACE_THRESHOLD
                     depth_to_mbar pi_entry = Inr out"
    by (rule populate_total)
qed

theorem carry_forward_unchanged_witness:
  "0 \<le> filler_cylinder 1 0 (surface_profile ! 1)
   \<and> filler_cylinder 1 0 (surface_profile ! 1) < int 8
   \<and> filler_pressure 0 (surface_profile ! 1) = 0
   \<and> carries_forward (surface_track_pr (filler_cylinder 1 0 (surface_profile ! 1)))
        (sec (surface_profile ! 1)) = True
   \<and> tank_pressure_step 8 1 surface_track_pr 0 1 (surface_profile, example_cur_pr 200)
       = Inr ([example_entry 0 0 0 0 200, example_entry 10 0 0 0 200], example_cur_pr 200)
   \<and> 0 \<le> filler_cylinder 1 0 (ascent_entries ! 2)
   \<and> filler_cylinder 1 0 (ascent_entries ! 2) < int 8
   \<and> filler_pressure 0 (ascent_entries ! 2) = 0
   \<and> carries_forward (ascent_track_pr (filler_cylinder 1 0 (ascent_entries ! 2)))
        (sec (ascent_entries ! 2)) = False
   \<and> ip_pressure_time (get_pr_interpolate_data
        (hd (find_segment (ascent_track_pr (filler_cylinder 1 0 (ascent_entries ! 2)))
               (sec (ascent_entries ! 2)))) ascent_entries 2 0) = 0
   \<and> tank_pressure_step 8 1 ascent_track_pr 0 2 (ascent_entries, example_cur_pr 190)
       = Inr ([example_entry 0 2000 0 0 200, example_entry 10 0 0 11130 190,
               (example_entry 20 0 0 0 0)\<lparr>pressure_INTERPOLATED_PR := 190\<rparr>,
               example_entry 30 0 0 0 190], example_cur_pr 190)
   \<and> cylinders_in_range 8 ascent_profile
   \<and> populate_pressure_information 8 1 750 example_depth_to_mbar ascent_profile
       = Inr [example_entry 0 2000 0 0 200, example_entry 10 0 0 11130 190,
               (example_entry 20 0 0 0 0)\<lparr>pressure_INTERPOLATED_PR := 190\<rparr>,
               example_entry 30 0 0 0 190]"
proof -
  have a: "0 \<le> filler_cylinder 1 0 (surface_profile ! 1)"
    "filler_cylinder 1 0 (surface_profile ! 1) < int 8"
    "filler_pressure 0 (surface_profile ! 1) = 0"
    and ac: "carries_forward (surface_track_pr (filler_cylinder 1 0 (surface_profile ! 1)))
        (sec (surface_profile ! 1)) = True"
    by (simp_all add: surface_profile_def surface_track_pr_def filler_defs carries_forward_def
        find_segment_def entry_eval)
  have b: "0 \<le> filler_cylinder 1 0 (ascent_entries ! 2)"
    "filler_cylinder 1 0 (ascent_entries ! 2) < int 8"
    "filler_pressure 0 (ascent_entries ! 2) = 0"
    and bc: "carries_forward (ascent_track_pr (filler_cylinder 1 0 (ascent_entries ! 2)))
        (sec (ascent_entries ! 2)) = False"
    "ip_pressure_time (get_pr_interpolate_data
        (hd (find_segment (ascent_track_pr (filler_cylinder 1 0 (ascent_entries ! 2)))
               (sec (ascent_entries ! 2)))) ascent_entries 2 0) = 0"
    by (simp_all add: ascent_entries_def ascent_track_pr_def filler_defs carries_forward_def
        find_segment_def get_pr_interpolate_data_def entry_eval)
  have r: "cylinders_in_range 8 ascent_profile"
    by (simp add: cylinders_in_range_def ascent_profile_def example_entry_def)
  have p: "populate_pressure_information 8 1 750 example_depth_to_mbar ascent_profile
       = Inr [example_entry 0 2000 0 0 200, example_entry 10 0 0 11130 190,
               (example_entry 20 0 0 0 0)\<lparr>pressure_INTERPOLATED_PR := 190\<rparr>,
               example_entry 30 0 0 0 190]"
    by (simp add: ascent_profile_def entry_eval filler_eval populate_eval)
  from carry_forward_unchanged [OF a, of surface_track_pr "example_cur_pr 200"] ac
  have s1: "tank_pressure_step 8 1 surface_track_pr 0 1 (surface_profile, example_cur_pr 200)
       = Inr ([example_entry 0 0 0 0 200, example_entry 10 0 0 0 200], example_cur_pr 200)"
    by (simp add: surface_profile_def filler_defs example_cur_pr_def example_entry_def)
  from carry_forward_unchanged [OF b, of ascent_track_pr "example_cur_pr 190"] bc
  have s2: "tank_pressure_step 8 1 ascent_track_pr 0 2 (ascent_entries, example_cur_pr 190)
       = Inr ([example_entry 0 2000 0 0 200, example_entry 10 0 0 11130 190,
               (example_entry 20 0 0 0 0)\<lparr>pressure_INTERPOLATED_PR := 190\<rparr>,
               example_entry 30 0 0 0 190], example_cur_pr 190)"
    by (simp add: ascent_entries_def filler_defs example_cur_pr_def example_entry_def)
  from a ac b bc r p s1 s2 show ?thesis by blast
qed

end
